theory Spec2Isabelle
  imports Main "HOL-Library.AList"
begin

section \<open>The live-reload middleware of breezy (livereload.go)\<close>

text \<open>
  The package is one Go file: a buffering \<^verbatim>\<open>responseWriter\<close>, three pure string
  functions (\<^verbatim>\<open>isHTMLResponse\<close>, \<^verbatim>\<open>isDevelopmentMode\<close>, \<^verbatim>\<open>injectScript\<close>), the
  WebSocket handler \<^verbatim>\<open>handleLiveReload\<close> and the \<^verbatim>\<open>Middleware\<close> that routes between
  them. Go strings are byte sequences, so a string is a \<^typ>\<open>char list\<close> here (an Isabelle
  \<^typ>\<open>char\<close> is one byte).
\<close>

subsection \<open>Package strings of the Go standard library\<close>

text \<open>
  \<^verbatim>\<open>strings.HasPrefix(s, prefix)\<close> is
  \<^verbatim>\<open>len(s) >= len(prefix) && s[:len(prefix)] == prefix\<close>.
\<close>

definition HasPrefix :: "string \<Rightarrow> string \<Rightarrow> bool" where
  "HasPrefix s prefix = (length prefix \<le> length s \<and> take (length prefix) s = prefix)"

text \<open>
  \<^verbatim>\<open>strings.Index(s, substr)\<close>: the index of the first instance of \<^verbatim>\<open>substr\<close> in
  \<^verbatim>\<open>s\<close>, or -1 (here \<^term>\<open>None\<close>) when there is none. The empty string is found at 0.
\<close>

fun Index :: "string \<Rightarrow> string \<Rightarrow> nat option" where
  "Index [] substr = (if substr = [] then Some 0 else None)"
| "Index (c # cs) substr =
     (if HasPrefix (c # cs) substr then Some 0 else map_option Suc (Index cs substr))"

text \<open>\<^verbatim>\<open>strings.Contains(s, substr)\<close> is \<^verbatim>\<open>Index(s, substr) >= 0\<close>.\<close>

definition Contains :: "string \<Rightarrow> string \<Rightarrow> bool" where
  "Contains s substr = (Index s substr \<noteq> None)"

text \<open>
  \<^verbatim>\<open>strings.Replace(s, old, new, 1)\<close>, the only count the program passes: \<^verbatim>\<open>s\<close> itself
  when \<^verbatim>\<open>old == new\<close> or \<^verbatim>\<open>old\<close> does not occur, else \<^verbatim>\<open>s\<close> with the first instance
  of \<^verbatim>\<open>old\<close> replaced by \<^verbatim>\<open>new\<close>.
\<close>

definition Replace1 :: "string \<Rightarrow> string \<Rightarrow> string \<Rightarrow> string" where
  "Replace1 s old new =
     (if old = new then s
      else case Index s old of
             None \<Rightarrow> s
           | Some j \<Rightarrow> take j s @ new @ drop (j + length old) s)"

text \<open>
  \<^verbatim>\<open>strings.ToLower\<close> on bytes: an ASCII upper-case letter (65 to 90) moves to its
  lower-case letter (\<^verbatim>\<open>c += 'a' - 'A'\<close>), every other byte stays. Go maps a string with
  bytes from 128 on rune by rune with \<^verbatim>\<open>unicode.ToLower\<close>; that changes which non-ASCII
  bytes surround the ASCII ones, not the ASCII bytes the program searches for.
\<close>

definition lowerByte :: "char \<Rightarrow> char" where
  "lowerByte c =
     (let n = (of_char c :: nat) in if 65 \<le> n \<and> n \<le> 90 then char_of (n + 32) else c)"

definition ToLower :: "string \<Rightarrow> string" where
  "ToLower s = map lowerByte s"

subsection \<open>Requests and the development-mode test\<close>

text \<open>Of \<^verbatim>\<open>*http.Request\<close> the program reads the host; the router reads the path.\<close>

record Request =
  Host :: string
  URL_Path :: string

definition isDevelopmentMode :: "Request \<Rightarrow> bool" where
  "isDevelopmentMode r =
     (let host = Host r in
        Contains host ''localhost'' \<or>
        Contains host ''127.0.0.1'' \<or>
        HasPrefix host ''localhost:'' \<or>
        HasPrefix host ''127.0.0.1:'')"

subsection \<open>The script injector\<close>

text \<open>
  \<^verbatim>\<open>scriptHTML\<close> is the embedded file \<^verbatim>\<open>script.html\<close>, which is not part of the
  sources at hand: it is a parameter of the model. The byte \<^verbatim>\<open>0x0A\<close> is the newline of
  the Go literals \<^verbatim>\<open>"\n</head>"\<close>, \<^verbatim>\<open>"\n</body>"\<close> and \<^verbatim>\<open>"\n</html>"\<close>.
\<close>

definition injectScript :: "string \<Rightarrow> string \<Rightarrow> string" where
  "injectScript scriptHTML body =
     (if Contains body ''</head>'' then
        Replace1 body ''</head>'' (scriptHTML @ CHR 0x0A # ''</head>'')
      else if Contains body ''</body>'' then
        Replace1 body ''</body>'' (scriptHTML @ CHR 0x0A # ''</body>'')
      else if Contains body ''</html>'' then
        Replace1 body ''</html>'' (scriptHTML @ CHR 0x0A # ''</html>'')
      else body @ scriptHTML)"

subsection \<open>Specification vocabulary for substrings\<close>

text \<open>
  What the specification means by a marker occurring in a body, and by its first
  occurrence: \<open>pre\<close> is everything before the first instance of \<open>marker\<close> and \<open>suf\<close>
  everything after it.
\<close>

definition occurs :: "string \<Rightarrow> string \<Rightarrow> bool" where
  "occurs marker s = (\<exists>pre suf. s = pre @ marker @ suf)"

definition first_occurrence :: "string \<Rightarrow> string \<Rightarrow> string \<Rightarrow> string \<Rightarrow> bool" where
  "first_occurrence s marker pre suf =
     (s = pre @ marker @ suf \<and>
      (\<forall>pre' suf'. s = pre' @ marker @ suf' \<longrightarrow> length pre \<le> length pre'))"

text \<open>
  The marker the specification has the injector choose: \<open></head>\<close> before \<open></body>\<close>
  before \<open></html>\<close>, the first of them that occurs.
\<close>

definition chosen_marker :: "string \<Rightarrow> string" where
  "chosen_marker doc =
     (if occurs ''</head>'' doc then ''</head>''
      else if occurs ''</body>'' doc then ''</body>'' else ''</html>'')"

definition begins_with :: "string \<Rightarrow> string \<Rightarrow> bool" where
  "begins_with p s = (\<exists>suf. s = p @ suf)"

subsection \<open>Package net/http: header maps\<close>

text \<open>
  \<^verbatim>\<open>http.Header\<close> is \<^verbatim>\<open>map[string][]string\<close>. It is an association list with one
  entry per key here, so that the \<^verbatim>\<open>range\<close> loop of the middleware has an order to
  follow; Go fixes none, and the list's order is arbitrary.

  Its methods canonicalise the key with \<^verbatim>\<open>textproto.CanonicalMIMEHeaderKey\<close>: the first
  letter and every letter after a hyphen in upper case, the others in lower case; a key
  with a space or a byte that is not a token byte is returned as it is.
\<close>

type_synonym Header = "(string \<times> string list) list"

definition upperByte :: "char \<Rightarrow> char" where
  "upperByte c =
     (let n = (of_char c :: nat) in if 97 \<le> n \<and> n \<le> 122 then char_of (n - 32) else c)"

definition validHeaderFieldByte :: "char \<Rightarrow> bool" where
  "validHeaderFieldByte c =
     (let n = (of_char c :: nat) in
        (48 \<le> n \<and> n \<le> 57) \<or> (65 \<le> n \<and> n \<le> 90) \<or> (97 \<le> n \<and> n \<le> 122) \<or>
        List.member [33, 35, 36, 37, 38, 39, 42, 43, 45, 46, 94, 95, 96, 124, 126] n)"

fun canonicalMIMEHeaderKey :: "bool \<Rightarrow> string \<Rightarrow> string" where
  "canonicalMIMEHeaderKey upper [] = []"
| "canonicalMIMEHeaderKey upper (c # cs) =
     (let c' = (if upper then upperByte c else lowerByte c)
      in c' # canonicalMIMEHeaderKey (c' = CHR ''-'') cs)"

definition CanonicalMIMEHeaderKey :: "string \<Rightarrow> string" where
  "CanonicalMIMEHeaderKey s =
     (if list_all validHeaderFieldByte s then canonicalMIMEHeaderKey True s else s)"

text \<open>\<^verbatim>\<open>h.Get(key)\<close>: the first value of the canonical key, or the empty string.\<close>

definition Header_Get :: "Header \<Rightarrow> string \<Rightarrow> string" where
  "Header_Get h key =
     (case map_of h (CanonicalMIMEHeaderKey key) of
        None \<Rightarrow> []
      | Some [] \<Rightarrow> []
      | Some (v # _) \<Rightarrow> v)"

text \<open>\<^verbatim>\<open>h.Add(key, value)\<close> is \<^verbatim>\<open>h[key] = append(h[key], value)\<close> on the canonical key.\<close>

definition Header_Add :: "Header \<Rightarrow> string \<Rightarrow> string \<Rightarrow> Header" where
  "Header_Add h key v =
     (let k = CanonicalMIMEHeaderKey key
      in AList.update k ((case map_of h k of None \<Rightarrow> [] | Some vs \<Rightarrow> vs) @ [v]) h)"

definition Header_Set :: "Header \<Rightarrow> string \<Rightarrow> string \<Rightarrow> Header" where
  "Header_Set h key v = AList.update (CanonicalMIMEHeaderKey key) [v] h"

definition Header_Del :: "Header \<Rightarrow> string \<Rightarrow> Header" where
  "Header_Del h key = AList.delete (CanonicalMIMEHeaderKey key) h"

text \<open>
  A header map as \<^verbatim>\<open>http.Header\<close>'s methods build it: no key twice, every key in
  canonical form. And the map with every list of values twice over.
\<close>

definition canonical_keys :: "Header \<Rightarrow> bool" where
  "canonical_keys h =
     (distinct (map fst h) \<and> list_all (\<lambda>key. CanonicalMIMEHeaderKey key = key) (map fst h))"

definition twice :: "Header \<Rightarrow> Header" where
  "twice h = map (\<lambda>(key, vals). (key, vals @ vals)) h"

subsection \<open>The HTML test\<close>

definition isHTMLResponse :: "string \<Rightarrow> Header \<Rightarrow> bool" where
  "isHTMLResponse body headers =
     (let contentType = Header_Get headers ''Content-Type'' in
        if Contains contentType ''text/html'' then True
        else
          let bodyLower = ToLower body in
            Contains bodyLower ''<html'' \<or>
            Contains bodyLower ''<!doctype html'' \<or>
            Contains bodyLower ''<head>'' \<or>
            (Contains bodyLower ''<body'' \<and> Contains bodyLower ''</body>''))"

subsection \<open>The real response writer\<close>

text \<open>
  The \<^verbatim>\<open>http.ResponseWriter\<close> the server hands to the middleware is an interface value;
  its implementation belongs to the server. The model keeps what the program can do to it:
  its header map, and the calls made on it in the order they were made (changes of the
  header map through \<^verbatim>\<open>Header()\<close> included). What the server puts on the wire follows
  from these calls and is not modelled.
\<close>

datatype event =
    Ev_HeaderSet string string
  | Ev_HeaderAdd string string
  | Ev_HeaderDel string
  | Ev_WriteHeader int
  | Ev_Write string

record http_ResponseWriter =
  header :: Header
  calls :: "event list"

datatype go_error = Err string

definition w_WriteHeader :: "http_ResponseWriter \<Rightarrow> int \<Rightarrow> http_ResponseWriter" where
  "w_WriteHeader w code = w\<lparr>calls := calls w @ [Ev_WriteHeader code]\<rparr>"

text \<open>The real writer's \<^verbatim>\<open>Write\<close> is taken to accept every byte.\<close>

definition w_Write :: "http_ResponseWriter \<Rightarrow> string \<Rightarrow> http_ResponseWriter \<times> nat \<times> go_error option" where
  "w_Write w b = (w\<lparr>calls := calls w @ [Ev_Write b]\<rparr>, length b, None)"

definition w_HeaderSet :: "http_ResponseWriter \<Rightarrow> string \<Rightarrow> string \<Rightarrow> http_ResponseWriter" where
  "w_HeaderSet w key v =
     w\<lparr>header := Header_Set (header w) key v, calls := calls w @ [Ev_HeaderSet key v]\<rparr>"

definition w_HeaderAdd :: "http_ResponseWriter \<Rightarrow> string \<Rightarrow> string \<Rightarrow> http_ResponseWriter" where
  "w_HeaderAdd w key v =
     w\<lparr>header := Header_Add (header w) key v, calls := calls w @ [Ev_HeaderAdd key v]\<rparr>"

definition w_HeaderDel :: "http_ResponseWriter \<Rightarrow> string \<Rightarrow> http_ResponseWriter" where
  "w_HeaderDel w key =
     w\<lparr>header := Header_Del (header w) key, calls := calls w @ [Ev_HeaderDel key]\<rparr>"

text \<open>The calls that put a status code or body bytes on the connection.\<close>

fun is_wire :: "event \<Rightarrow> bool" where
  "is_wire (Ev_WriteHeader _) = True"
| "is_wire (Ev_Write _) = True"
| "is_wire _ = False"



subsection \<open>The response capturer\<close>

text \<open>
  \<^verbatim>\<open>responseWriter\<close> embeds the real writer and adds a \<^verbatim>\<open>bytes.Buffer\<close> and a status
  code. The embedded writer is the same object as the \<^verbatim>\<open>w\<close> of the middleware: the
  model reads \<^verbatim>\<open>w\<close> back from the field after the wrapped handler has run.
\<close>

record responseWriter =
  ResponseWriter :: http_ResponseWriter
  body :: string
  statusCode :: int

text \<open>\<^verbatim>\<open>bytes.Buffer.Write\<close> appends and returns \<^verbatim>\<open>len(b)\<close> and a nil error.\<close>

definition rw_Write :: "responseWriter \<Rightarrow> string \<Rightarrow> responseWriter \<times> nat \<times> go_error option" where
  "rw_Write rw b = (rw\<lparr>body := body rw @ b\<rparr>, length b, None)"

definition rw_WriteHeader :: "responseWriter \<Rightarrow> int \<Rightarrow> responseWriter" where
  "rw_WriteHeader rw code = rw\<lparr>statusCode := code\<rparr>"

definition rw_Header :: "responseWriter \<Rightarrow> Header" where
  "rw_Header rw = header (ResponseWriter rw)"

subsection \<open>Wrapped handlers\<close>

text \<open>
  An \<^verbatim>\<open>http.Handler\<close> is any code that calls the methods of the writer it is given.
  Its run on one request is a tree of such calls: after \<^verbatim>\<open>Write\<close> it goes on with the
  result it got, after reading the header map with what it read. Header changes go
  through \<^verbatim>\<open>Header().Set\<close>, \<^verbatim>\<open>Add\<close> and \<^verbatim>\<open>Del\<close>. A handler that panics or never
  returns is outside the model.
\<close>

datatype Behaviour =
    Return
  | Call_Write string "nat \<Rightarrow> go_error option \<Rightarrow> Behaviour"
  | Call_WriteHeader int Behaviour
  | Call_HeaderSet string string Behaviour
  | Call_HeaderAdd string string Behaviour
  | Call_HeaderDel string Behaviour
  | Call_HeaderRead "Header \<Rightarrow> Behaviour"

type_synonym Handler = "Request \<Rightarrow> Behaviour"

text \<open>\<^verbatim>\<open>next.ServeHTTP(w, r)\<close>: the handler runs against the real writer.\<close>

primrec run_direct :: "Behaviour \<Rightarrow> http_ResponseWriter \<Rightarrow> http_ResponseWriter" where
  "run_direct Return w = w"
| "run_direct (Call_Write b k) w =
     (case w_Write w b of (w', n, err) \<Rightarrow> run_direct (k n err) w')"
| "run_direct (Call_WriteHeader code k) w = run_direct k (w_WriteHeader w code)"
| "run_direct (Call_HeaderSet key v k) w = run_direct k (w_HeaderSet w key v)"
| "run_direct (Call_HeaderAdd key v k) w = run_direct k (w_HeaderAdd w key v)"
| "run_direct (Call_HeaderDel key k) w = run_direct k (w_HeaderDel w key)"
| "run_direct (Call_HeaderRead k) w = run_direct (k (header w)) w"

text \<open>
  \<^verbatim>\<open>next.ServeHTTP(wrapper, r)\<close>: \<^verbatim>\<open>Write\<close> and \<^verbatim>\<open>WriteHeader\<close> are the capturer's own
  methods, \<^verbatim>\<open>Header()\<close> hands out the real writer's map.
\<close>

primrec run_captured :: "Behaviour \<Rightarrow> responseWriter \<Rightarrow> responseWriter" where
  "run_captured Return rw = rw"
| "run_captured (Call_Write b k) rw =
     (case rw_Write rw b of (rw', n, err) \<Rightarrow> run_captured (k n err) rw')"
| "run_captured (Call_WriteHeader code k) rw = run_captured k (rw_WriteHeader rw code)"
| "run_captured (Call_HeaderSet key v k) rw =
     run_captured k (rw\<lparr>ResponseWriter := w_HeaderSet (ResponseWriter rw) key v\<rparr>)"
| "run_captured (Call_HeaderAdd key v k) rw =
     run_captured k (rw\<lparr>ResponseWriter := w_HeaderAdd (ResponseWriter rw) key v\<rparr>)"
| "run_captured (Call_HeaderDel key k) rw =
     run_captured k (rw\<lparr>ResponseWriter := w_HeaderDel (ResponseWriter rw) key\<rparr>)"
| "run_captured (Call_HeaderRead k) rw = run_captured (k (rw_Header rw)) rw"

subsection \<open>The dispatcher\<close>

text \<open>
  The loop \<^verbatim>\<open>for key, values := range wrapper.Header()\<close> with
  \<^verbatim>\<open>w.Header().Add(key, value)\<close> inside reads and writes one map. Each key present when
  the loop starts is visited once, with the values the map holds for it at that moment;
  the inner loop runs over that slice as it was when it started. Go leaves open whether
  an entry added during the loop is visited; the model does not visit it.
\<close>

definition copyValues :: "http_ResponseWriter \<Rightarrow> string \<Rightarrow> string list \<Rightarrow> http_ResponseWriter" where
  "copyValues w key vals = foldl (\<lambda>w' v. w_HeaderAdd w' key v) w vals"

definition copyHeaders :: "http_ResponseWriter \<Rightarrow> http_ResponseWriter" where
  "copyHeaders w =
     foldl (\<lambda>w' key. case map_of (header w') key of
                        None \<Rightarrow> w'
                      | Some vals \<Rightarrow> copyValues w' key vals)
       w (map fst (header w))"

text \<open>The handler registered for \<^verbatim>\<open>"/"\<close>; \<^verbatim>\<open>http.StatusOK\<close> is 200.\<close>

definition catchAll :: "string \<Rightarrow> Handler \<Rightarrow> http_ResponseWriter \<Rightarrow> Request \<Rightarrow> http_ResponseWriter" where
  "catchAll scriptHTML next w r =
     (if \<not> isDevelopmentMode r then run_direct (next r) w
      else
        let wrapper = run_captured (next r) \<lparr>ResponseWriter = w, body = [], statusCode = 200\<rparr>;
            w1 = ResponseWriter wrapper;
            body = body wrapper
        in
          if \<not> isHTMLResponse body (rw_Header wrapper) then
            let w2 = (if statusCode wrapper \<noteq> 200 then w_WriteHeader w1 (statusCode wrapper) else w1)
            in fst (w_Write w2 body)
          else
            let modifiedBody = injectScript scriptHTML body;
                w2 = (if statusCode wrapper \<noteq> 200 then w_WriteHeader w1 (statusCode wrapper) else w1);
                w3 = copyHeaders w2
            in fst (w_Write w3 modifiedBody))"

text \<open>
  The capturer as the wrapped handler leaves it: \<^verbatim>\<open>wrapper\<close> after
  \<^verbatim>\<open>next.ServeHTTP(wrapper, r)\<close>.
\<close>

definition captured :: "Handler \<Rightarrow> http_ResponseWriter \<Rightarrow> Request \<Rightarrow> responseWriter" where
  "captured next w r = run_captured (next r) \<lparr>ResponseWriter = w, body = [], statusCode = 200\<rparr>"

subsection \<open>The notification endpoint\<close>

text \<open>
  The WebSocket connection is gorilla's; the model keeps the calls the handler makes on
  it and the lines it logs. What the peer and the network do is the environment: whether
  the upgrade and the one send succeed, and the result of each \<^verbatim>\<open>ReadMessage\<close> in turn.
  What gorilla sends on its own inside \<^verbatim>\<open>ReadMessage\<close> (its answers to ping and close
  frames) is no call of the handler and is not modelled.
  The read loop ends only when a read fails, so it runs on fuel: with the fuel used up the
  handler is still in the loop (\<open>returned\<close> is false) and the calls listed are those made
  so far.
\<close>

datatype json = JString string | JInt int

datatype ws_read = Message int string | ReadFailed go_error

record ws_env =
  upgrade_err :: "go_error option"
  send_err :: "go_error option"
  reads :: "nat \<Rightarrow> ws_read"

datatype conn_call = WriteJSON "(string \<times> json) list" | ReadMessage | Close

record ws_run =
  conn_calls :: "conn_call list"
  logged :: "string list"
  returned :: bool

fun readLoop :: "nat \<Rightarrow> (nat \<Rightarrow> ws_read) \<Rightarrow> nat \<Rightarrow> conn_call list \<times> bool" where
  "readLoop 0 rd i = ([], False)"
| "readLoop (Suc fuel) rd i =
     (case rd i of
        ReadFailed err \<Rightarrow> ([ReadMessage], True)
      | Message t p \<Rightarrow> (case readLoop fuel rd (Suc i) of (cs, done) \<Rightarrow> (ReadMessage # cs, done)))"

definition handleLiveReload :: "int \<Rightarrow> nat \<Rightarrow> ws_env \<Rightarrow> ws_run" where
  "handleLiveReload serverStartTime fuel env =
     (case upgrade_err env of
        Some err \<Rightarrow>
          \<lparr>conn_calls = [], logged = [''WebSocket upgrade failed''], returned = True\<rparr>
      | None \<Rightarrow>
          let msg = WriteJSON [(''type'', JString ''server-info''), (''startTime'', JInt serverStartTime)]
          in case send_err env of
               Some err \<Rightarrow>
                 \<lparr>conn_calls = [msg, Close], logged = [''Failed to send server info''],
                  returned = True\<rparr>
             | None \<Rightarrow>
                 (case readLoop fuel (reads env) 0 of
                    (cs, done) \<Rightarrow>
                      \<lparr>conn_calls = msg # cs @ (if done then [Close] else []), logged = [],
                       returned = done\<rparr>))"

fun is_WriteJSON :: "conn_call \<Rightarrow> bool" where
  "is_WriteJSON (WriteJSON _) = True"
| "is_WriteJSON _ = False"

subsection \<open>The router\<close>

text \<open>
  \<^verbatim>\<open>http.ServeMux\<close> with the patterns \<^verbatim>\<open>"/ws/livereload"\<close> and \<^verbatim>\<open>"/"\<close>: the first
  matches that path alone, the second every other path. Before it matches, the mux cleans
  the path (net/http: it redirects any request containing \<^verbatim>\<open>.\<close> or \<^verbatim>\<open>..\<close> elements or
  repeated slashes to an equivalent, cleaner URL): when \<^verbatim>\<open>cleanPath\<close> changes the path,
  the mux answers with a redirect (301) to the clean path and runs no registered handler.
  Requests with method CONNECT, whose paths the mux leaves alone, are not modelled.

  \<^verbatim>\<open>cleanPath\<close> makes the path rooted, applies \<^verbatim>\<open>path.Clean\<close> and puts a trailing
  slash back. \<^verbatim>\<open>path.Clean\<close> on a rooted path: the elements between slashes, without the
  empty ones and the \<^verbatim>\<open>.\<close> ones, each \<^verbatim>\<open>..\<close> taking away the element before it (none
  at the root), joined by single slashes after the root.
\<close>

fun elements :: "string \<Rightarrow> string list" where
  "elements [] = [[]]"
| "elements (c # cs) =
     (if c = CHR ''/'' then [] # elements cs
      else case elements cs of
             [] \<Rightarrow> [[c]]
           | e # es \<Rightarrow> (c # e) # es)"

fun cleanElements :: "string list \<Rightarrow> string list \<Rightarrow> string list" where
  "cleanElements kept [] = rev kept"
| "cleanElements kept (e # es) =
     (if e = [] \<or> e = ''.'' then cleanElements kept es
      else if e = ''..'' then cleanElements (tl kept) es
      else cleanElements (e # kept) es)"

fun joinElements :: "string list \<Rightarrow> string" where
  "joinElements [] = []"
| "joinElements [e] = e"
| "joinElements (e # es) = e @ CHR ''/'' # joinElements es"

definition path_Clean :: "string \<Rightarrow> string" where
  "path_Clean p = CHR ''/'' # joinElements (cleanElements [] (elements p))"

definition cleanPath :: "string \<Rightarrow> string" where
  "cleanPath p =
     (if p = [] then ''/''
      else
        let p' = (if hd p \<noteq> CHR ''/'' then CHR ''/'' # p else p);
            np = path_Clean p'
        in if last p' = CHR ''/'' \<and> np \<noteq> ''/'' then np @ ''/'' else np)"

datatype outcome = Redirect string | Http http_ResponseWriter | LiveReload ws_run

definition Middleware ::
  "string \<Rightarrow> int \<Rightarrow> Handler \<Rightarrow> nat \<Rightarrow> ws_env \<Rightarrow> http_ResponseWriter \<Rightarrow> Request \<Rightarrow> outcome" where
  "Middleware scriptHTML serverStartTime next fuel env w r =
     (if cleanPath (URL_Path r) \<noteq> URL_Path r then Redirect (cleanPath (URL_Path r))
      else if URL_Path r = ''/ws/livereload'' then
        LiveReload (handleLiveReload serverStartTime fuel env)
      else Http (catchAll scriptHTML next w r))"

subsection \<open>Example handlers and peers\<close>

text \<open>
  Handlers and WebSocket peers for the concrete runs below: the specification's HTML page
  with status 200, a JSON reply with status 404, an error page that adds headers, writes,
  sets status 500 and writes again, and a plain text reply that sets no status; a peer that
  sends two messages and leaves, and one to which the first send fails.
\<close>

definition htmlHandler :: Handler where
  "htmlHandler r =
     Call_HeaderSet ''Content-Type'' ''text/html''
       (Call_WriteHeader 200
         (Call_Write ''<html><head></head><body>hi</body></html>'' (\<lambda>n err. Return)))"

definition notFoundHandler :: Handler where
  "notFoundHandler r =
     Call_HeaderSet ''Content-Type'' ''application/json''
       (Call_WriteHeader 404 (Call_Write ''[1,2,3]'' (\<lambda>n err. Return)))"

definition errorPageHandler :: Handler where
  "errorPageHandler r =
     Call_HeaderAdd ''content-type'' ''text/html''
       (Call_HeaderAdd ''Set-Cookie'' ''a=1''
         (Call_HeaderAdd ''Set-Cookie'' ''b=2''
           (Call_Write ''<html><body>'' (\<lambda>n err.
             Call_WriteHeader 500 (Call_Write ''oops</body></html>'' (\<lambda>n' err'. Return))))))"

definition plainHandler :: Handler where
  "plainHandler r = Call_Write ''hello'' (\<lambda>n err. Call_Write '' world'' (\<lambda>n' err'. Return))"

definition env_client_leaves :: ws_env where
  "env_client_leaves =
     \<lparr>upgrade_err = None, send_err = None,
      reads = (\<lambda>i. if i < 2 then Message 1 ''ping'' else ReadFailed (Err ''close 1001''))\<rparr>"

definition env_send_fails :: ws_env where
  "env_send_fails =
     \<lparr>upgrade_err = None, send_err = Some (Err ''broken pipe''),
      reads = (\<lambda>i. if i < 2 then Message 1 ''ping'' else ReadFailed (Err ''close 1001''))\<rparr>"

section \<open>Properties of the string functions\<close>

lemma HasPrefix_iff: "HasPrefix s p \<longleftrightarrow> (\<exists>suf. s = p @ suf)"
  unfolding HasPrefix_def
proof
  assume "length p \<le> length s \<and> take (length p) s = p"
  then have "s = p @ drop (length p) s" by (metis append_take_drop_id)
  then show "\<exists>suf. s = p @ suf" ..
next
  assume "\<exists>suf. s = p @ suf"
  then show "length p \<le> length s \<and> take (length p) s = p" by auto
qed

lemma Index_None: "Index s sub = None \<Longrightarrow> s \<noteq> pre @ sub @ suf"
proof (induction s arbitrary: pre)
  case Nil
  then show ?case by (auto split: if_splits)
next
  case (Cons c cs)
  from Cons.prems have np: "\<not> HasPrefix (c # cs) sub" and tl: "Index cs sub = None"
    by (auto split: if_splits)
  show ?case
  proof (cases pre)
    case Nil
    with np show ?thesis by (auto simp: HasPrefix_iff)
  next
    case (Cons p ps)
    with Cons.IH [OF tl, of ps] show ?thesis by auto
  qed
qed

lemma Index_Some:
  "Index s sub = Some j \<Longrightarrow>
     s = take j s @ sub @ drop (j + length sub) s \<and> j + length sub \<le> length s \<and>
     (\<forall>pre' suf'. s = pre' @ sub @ suf' \<longrightarrow> j \<le> length pre')"
proof (induction s arbitrary: j)
  case Nil
  then show ?case by (auto split: if_splits)
next
  case (Cons c cs)
  show ?case
  proof (cases "HasPrefix (c # cs) sub")
    case True
    with Cons.prems have j: "j = 0" by simp
    from True obtain suf where s: "c # cs = sub @ suf" by (auto simp: HasPrefix_iff)
    then have "drop (length sub) (c # cs) = suf" by (metis append_eq_conv_conj)
    with s j show ?thesis by (metis add_0 append_Nil le0 le_add1 length_append take_0)
  next
    case False
    with Cons.prems obtain i where i: "Index cs sub = Some i" and j: "j = Suc i" by auto
    note IH = Cons.IH [OF i]
    have least: "j \<le> length pre'" if eq: "c # cs = pre' @ sub @ suf'" for pre' suf'
    proof (cases pre')
      case Nil
      with eq False show ?thesis by (auto simp: HasPrefix_iff)
    next
      case (Cons p ps)
      with eq have "cs = ps @ sub @ suf'" by simp
      with IH have "i \<le> length ps" by blast
      with Cons j show ?thesis by simp
    qed
    from IH j have "c # cs = take j (c # cs) @ sub @ drop (j + length sub) (c # cs)"
      and "j + length sub \<le> length (c # cs)" by auto
    with least show ?thesis by blast
  qed
qed

lemma Contains_iff: "Contains s sub \<longleftrightarrow> occurs sub s"
  unfolding occurs_def
proof
  assume "Contains s sub"
  then obtain j where "Index s sub = Some j" by (auto simp: Contains_def)
  from Index_Some [OF this] show "\<exists>pre suf. s = pre @ sub @ suf" by blast
next
  assume "\<exists>pre suf. s = pre @ sub @ suf"
  then show "Contains s sub" unfolding Contains_def using Index_None by blast
qed

lemma Index_first_occurrence:
  assumes "Index s m = Some j"
  shows "first_occurrence s m (take j s) (drop (j + length m) s)"
proof -
  from Index_Some [OF assms] have "j \<le> length s" by simp
  then have "length (take j s) = j" by simp
  with Index_Some [OF assms] show ?thesis unfolding first_occurrence_def by metis
qed

lemma first_occurrence_unique:
  assumes a: "first_occurrence s m pre suf" and b: "first_occurrence s m pre' suf'"
  shows "pre = pre' \<and> suf = suf'"
proof -
  from a have s1: "s = pre @ m @ suf"
    and m1: "\<And>p q. s = p @ m @ q \<Longrightarrow> length pre \<le> length p"
    by (auto simp: first_occurrence_def)
  from b have s2: "s = pre' @ m @ suf'"
    and m2: "\<And>p q. s = p @ m @ q \<Longrightarrow> length pre' \<le> length p"
    by (auto simp: first_occurrence_def)
  from m1 [OF s2] m2 [OF s1] have "length pre = length pre'" by simp
  with s1 s2 show ?thesis by auto
qed

lemma Replace1_first:
  assumes "occurs old s" and "old \<noteq> new"
  shows "\<exists>pre suf. first_occurrence s old pre suf \<and> Replace1 s old new = pre @ new @ suf"
proof -
  from assms(1) obtain j where j: "Index s old = Some j"
    by (auto simp: Contains_def simp flip: Contains_iff)
  from j assms(2) have "Replace1 s old new = take j s @ new @ drop (j + length old) s"
    by (simp add: Replace1_def)
  with Index_first_occurrence [OF j] show ?thesis by blast
qed

lemma injectScript_marker:
  assumes "injectScript scriptHTML doc = Replace1 doc m (scriptHTML @ CHR 0x0A # m)"
    and "occurs m doc"
  shows "\<exists>pre suf. first_occurrence doc m pre suf \<and>
           injectScript scriptHTML doc = pre @ scriptHTML @ [CHR 0x0A] @ m @ suf"
proof -
  have "m \<noteq> scriptHTML @ CHR 0x0A # m"
  proof
    assume "m = scriptHTML @ CHR 0x0A # m"
    then have "length m = length (scriptHTML @ CHR 0x0A # m)" by (rule arg_cong)
    then show False by simp
  qed
  from Replace1_first [OF assms(2) this] assms(1) show ?thesis by simp
qed

lemma HasPrefix_begins: "HasPrefix s p \<longleftrightarrow> begins_with p s"
  by (simp add: HasPrefix_iff begins_with_def)

lemma begins_occurs: "begins_with p s \<Longrightarrow> occurs p s"
  unfolding begins_with_def occurs_def by (metis append_Nil)

lemma begins_longer: "begins_with (p @ q) s \<Longrightarrow> begins_with p s"
  unfolding begins_with_def by auto

lemma injectScript_chosen:
  assumes "occurs ''</head>'' doc \<or> occurs ''</body>'' doc \<or> occurs ''</html>'' doc"
  shows "occurs (chosen_marker doc) doc \<and>
         injectScript scriptHTML doc =
           Replace1 doc (chosen_marker doc) (scriptHTML @ CHR 0x0A # chosen_marker doc)"
proof (cases "occurs ''</head>'' doc")
  case True
  then show ?thesis by (simp add: chosen_marker_def injectScript_def Contains_iff)
next
  case nh: False
  show ?thesis
  proof (cases "occurs ''</body>'' doc")
    case True
    with nh show ?thesis by (simp add: chosen_marker_def injectScript_def Contains_iff)
  next
    case nb: False
    with nh assms have "occurs ''</html>'' doc" by simp
    with nh nb show ?thesis by (simp add: chosen_marker_def injectScript_def Contains_iff)
  qed
qed

section \<open>The script injector (claims C1 and C10)\<close>

text \<open>
  Claim C1, as the specification states it, has the snippet itself immediately before the
  first occurrence of the chosen marker, the body being an exact prefix and suffix around
  the snippet. The code inserts the snippet and a newline: for the body \<open>a</head>b\<close>,
  whose first \<open></head>\<close> has \<open>a\<close> before it and \<open>b\<close> after it, and the snippet
  \<open><s>\<close>, the result is not \<open>a<s></head>b\<close>.
\<close>

theorem injectScript_snippet_not_adjacent:
  "first_occurrence ''a</head>b'' ''</head>'' ''a'' ''b'' \<and>
   injectScript ''<s>'' ''a</head>b'' \<noteq> ''a'' @ ''<s>'' @ ''</head>'' @ ''b''"
proof
  have "Index ''a</head>b'' ''</head>'' = Some 1" by code_simp
  from Index_first_occurrence [OF this]
  show "first_occurrence ''a</head>b'' ''</head>'' ''a'' ''b''" by simp
  have "injectScript ''<s>'' ''a</head>b'' = ''a<s>'' @ CHR 0x0A # ''</head>b''" by code_simp
  then show "injectScript ''<s>'' ''a</head>b'' \<noteq> ''a'' @ ''<s>'' @ ''</head>'' @ ''b''" by simp
qed

text \<open>
  Claim C1, amended: for every body, \<^const>\<open>injectScript\<close> inserts the snippet followed by
  one newline immediately before the first occurrence of \<open></head>\<close>; if \<open></head>\<close> does
  not occur, before the first occurrence of \<open></body>\<close>; if that does not occur either,
  before the first occurrence of \<open></html>\<close>; and if none of the three occurs it appends
  the snippet alone. Only that first occurrence is touched: the body is the prefix before
  it, the marker and the suffix after it, and the result is that prefix, the snippet, the
  newline, the marker and that suffix.
\<close>

theorem injectScript_first_marker:
  "(occurs ''</head>'' doc \<longrightarrow>
      (\<exists>pre suf. first_occurrence doc ''</head>'' pre suf \<and>
         injectScript scriptHTML doc = pre @ scriptHTML @ [CHR 0x0A] @ ''</head>'' @ suf)) \<and>
   (\<not> occurs ''</head>'' doc \<and> occurs ''</body>'' doc \<longrightarrow>
      (\<exists>pre suf. first_occurrence doc ''</body>'' pre suf \<and>
         injectScript scriptHTML doc = pre @ scriptHTML @ [CHR 0x0A] @ ''</body>'' @ suf)) \<and>
   (\<not> occurs ''</head>'' doc \<and> \<not> occurs ''</body>'' doc \<and> occurs ''</html>'' doc \<longrightarrow>
      (\<exists>pre suf. first_occurrence doc ''</html>'' pre suf \<and>
         injectScript scriptHTML doc = pre @ scriptHTML @ [CHR 0x0A] @ ''</html>'' @ suf)) \<and>
   (\<not> occurs ''</head>'' doc \<and> \<not> occurs ''</body>'' doc \<and> \<not> occurs ''</html>'' doc \<longrightarrow>
      injectScript scriptHTML doc = doc @ scriptHTML)"
proof (intro conjI impI)
  assume h: "occurs ''</head>'' doc"
  then have "injectScript scriptHTML doc =
      Replace1 doc ''</head>'' (scriptHTML @ CHR 0x0A # ''</head>'')"
    by (simp add: injectScript_def Contains_iff)
  from injectScript_marker [OF this h]
  show "\<exists>pre suf. first_occurrence doc ''</head>'' pre suf \<and>
         injectScript scriptHTML doc = pre @ scriptHTML @ [CHR 0x0A] @ ''</head>'' @ suf" .
next
  assume h: "\<not> occurs ''</head>'' doc \<and> occurs ''</body>'' doc"
  then have "injectScript scriptHTML doc =
      Replace1 doc ''</body>'' (scriptHTML @ CHR 0x0A # ''</body>'')"
    by (simp add: injectScript_def Contains_iff)
  from injectScript_marker [OF this] h
  show "\<exists>pre suf. first_occurrence doc ''</body>'' pre suf \<and>
         injectScript scriptHTML doc = pre @ scriptHTML @ [CHR 0x0A] @ ''</body>'' @ suf"
    by blast
next
  assume h: "\<not> occurs ''</head>'' doc \<and> \<not> occurs ''</body>'' doc \<and> occurs ''</html>'' doc"
  then have "injectScript scriptHTML doc =
      Replace1 doc ''</html>'' (scriptHTML @ CHR 0x0A # ''</html>'')"
    by (simp add: injectScript_def Contains_iff)
  from injectScript_marker [OF this] h
  show "\<exists>pre suf. first_occurrence doc ''</html>'' pre suf \<and>
         injectScript scriptHTML doc = pre @ scriptHTML @ [CHR 0x0A] @ ''</html>'' @ suf"
    by blast
next
  assume "\<not> occurs ''</head>'' doc \<and> \<not> occurs ''</body>'' doc \<and> \<not> occurs ''</html>'' doc"
  then show "injectScript scriptHTML doc = doc @ scriptHTML"
    by (simp add: injectScript_def Contains_iff)
qed

text \<open>
  The amended statement at four bodies, one for each case: two \<open></head>\<close> (only the first
  gets the snippet), \<open></body>\<close> without \<open></head>\<close>, two \<open></html>\<close> alone, and no marker.
\<close>

theorem injectScript_first_marker_witness:
  "injectScript ''<s>'' ''<head></head><p></head>'' = ''<head><s>'' @ CHR 0x0A # ''</head><p></head>'' \<and>
   injectScript ''<s>'' ''<body>x</body></html>'' = ''<body>x<s>'' @ CHR 0x0A # ''</body></html>'' \<and>
   injectScript ''<s>'' ''x</html></html>'' = ''x<s>'' @ CHR 0x0A # ''</html></html>'' \<and>
   injectScript ''<s>'' ''plain'' = ''plain<s>''"
proof (intro conjI)
  let ?d = "''<head></head><p></head>''"
  have "Contains ?d ''</head>''" by code_simp
  then have oc: "occurs ''</head>'' ?d" by (simp add: Contains_iff)
  with injectScript_first_marker [of ?d "''<s>''"] obtain pre suf
    where fo: "first_occurrence ?d ''</head>'' pre suf"
      and eq: "injectScript ''<s>'' ?d = pre @ ''<s>'' @ [CHR 0x0A] @ ''</head>'' @ suf"
    by blast
  have "Index ?d ''</head>'' = Some 6" by code_simp
  from Index_first_occurrence [OF this]
  have "first_occurrence ?d ''</head>'' ''<head>'' ''<p></head>''" by simp
  from first_occurrence_unique [OF fo this] eq
  show "injectScript ''<s>'' ?d = ''<head><s>'' @ CHR 0x0A # ''</head><p></head>''" by simp
next
  let ?d = "''<body>x</body></html>''"
  have "\<not> Contains ?d ''</head>''" "Contains ?d ''</body>''" by code_simp+
  then have oc: "\<not> occurs ''</head>'' ?d \<and> occurs ''</body>'' ?d" by (simp add: Contains_iff)
  with injectScript_first_marker [of ?d "''<s>''"] obtain pre suf
    where fo: "first_occurrence ?d ''</body>'' pre suf"
      and eq: "injectScript ''<s>'' ?d = pre @ ''<s>'' @ [CHR 0x0A] @ ''</body>'' @ suf"
    by blast
  have "Index ?d ''</body>'' = Some 7" by code_simp
  from Index_first_occurrence [OF this]
  have "first_occurrence ?d ''</body>'' ''<body>x'' ''</html>''" by simp
  from first_occurrence_unique [OF fo this] eq
  show "injectScript ''<s>'' ?d = ''<body>x<s>'' @ CHR 0x0A # ''</body></html>''" by simp
next
  let ?d = "''x</html></html>''"
  have "\<not> Contains ?d ''</head>''" "\<not> Contains ?d ''</body>''" "Contains ?d ''</html>''"
    by code_simp+
  then have oc: "\<not> occurs ''</head>'' ?d \<and> \<not> occurs ''</body>'' ?d \<and> occurs ''</html>'' ?d"
    by (simp add: Contains_iff)
  with injectScript_first_marker [of ?d "''<s>''"] obtain pre suf
    where fo: "first_occurrence ?d ''</html>'' pre suf"
      and eq: "injectScript ''<s>'' ?d = pre @ ''<s>'' @ [CHR 0x0A] @ ''</html>'' @ suf"
    by blast
  have "Index ?d ''</html>'' = Some 1" by code_simp
  from Index_first_occurrence [OF this]
  have "first_occurrence ?d ''</html>'' ''x'' ''</html>''" by simp
  from first_occurrence_unique [OF fo this] eq
  show "injectScript ''<s>'' ?d = ''x<s>'' @ CHR 0x0A # ''</html></html>''" by simp
next
  let ?d = "''plain''"
  have "\<not> Contains ?d ''</head>''" "\<not> Contains ?d ''</body>''" "\<not> Contains ?d ''</html>''"
    by code_simp+
  then have "\<not> occurs ''</head>'' ?d \<and> \<not> occurs ''</body>'' ?d \<and> \<not> occurs ''</html>'' ?d"
    by (simp add: Contains_iff)
  with injectScript_first_marker [of ?d "''<s>''"]
  show "injectScript ''<s>'' ?d = ''plain<s>''" by simp
qed

text \<open>
  Claim C10: for every body, \<^const>\<open>injectScript\<close> adds one copy of the snippet and nothing
  else but one newline. When the body contains \<open></head>\<close>, \<open></body>\<close> or \<open></html>\<close>,
  the result is the body with the snippet and then one newline put immediately before the
  first occurrence of the chosen marker, so that the newline stands between the snippet and
  the marker, and its length is the length of the body plus the length of the snippet plus
  one. When the body contains none of them the result is the body followed by the snippet,
  with no newline, and its length is the sum of the two lengths.
\<close>

theorem injectScript_newline_between:
  "(occurs ''</head>'' doc \<or> occurs ''</body>'' doc \<or> occurs ''</html>'' doc \<longrightarrow>
      (\<exists>pre suf. first_occurrence doc (chosen_marker doc) pre suf \<and>
         injectScript scriptHTML doc =
           pre @ scriptHTML @ [CHR 0x0A] @ chosen_marker doc @ suf) \<and>
      length (injectScript scriptHTML doc) = length doc + length scriptHTML + 1) \<and>
   (\<not> (occurs ''</head>'' doc \<or> occurs ''</body>'' doc \<or> occurs ''</html>'' doc) \<longrightarrow>
      injectScript scriptHTML doc = doc @ scriptHTML \<and>
      length (injectScript scriptHTML doc) = length doc + length scriptHTML)"
proof (intro conjI impI)
  assume any: "occurs ''</head>'' doc \<or> occurs ''</body>'' doc \<or> occurs ''</html>'' doc"
  from injectScript_chosen [OF any]
  have m: "occurs (chosen_marker doc) doc"
    and inj: "injectScript scriptHTML doc =
      Replace1 doc (chosen_marker doc) (scriptHTML @ CHR 0x0A # chosen_marker doc)"
    by blast+
  from injectScript_marker [OF inj m]
  show e: "\<exists>pre suf. first_occurrence doc (chosen_marker doc) pre suf \<and>
         injectScript scriptHTML doc =
           pre @ scriptHTML @ [CHR 0x0A] @ chosen_marker doc @ suf" .
  then obtain pre suf where d: "doc = pre @ chosen_marker doc @ suf"
    and i: "injectScript scriptHTML doc =
           pre @ scriptHTML @ [CHR 0x0A] @ chosen_marker doc @ suf"
    by (auto simp: first_occurrence_def)
  have "length doc = length pre + length (chosen_marker doc) + length suf"
    by (subst d) simp
  then show "length (injectScript scriptHTML doc) = length doc + length scriptHTML + 1"
    unfolding i by simp
next
  assume none: "\<not> (occurs ''</head>'' doc \<or> occurs ''</body>'' doc \<or> occurs ''</html>'' doc)"
  then show "injectScript scriptHTML doc = doc @ scriptHTML"
    by (simp add: injectScript_def Contains_iff)
  then show "length (injectScript scriptHTML doc) = length doc + length scriptHTML" by simp
qed

text \<open>
  The statement at a body with two \<open></body>\<close> (23 bytes, the snippet 17 bytes) and at a
  body without a marker (9 bytes).
\<close>

theorem injectScript_newline_between_witness:
  "injectScript ''<script></script>'' ''<p>hi</p></body></body>''
     = ''<p>hi</p><script></script>'' @ CHR 0x0A # ''</body></body>'' \<and>
   length (injectScript ''<script></script>'' ''<p>hi</p></body></body>'') = 23 + 17 + 1 \<and>
   injectScript ''<script></script>'' ''just text'' = ''just text<script></script>'' \<and>
   length (injectScript ''<script></script>'' ''just text'') = 9 + 17"
proof -
  let ?d = "''<p>hi</p></body></body>''"
  let ?s = "''<script></script>''"
  have "\<not> Contains ?d ''</head>''" "Contains ?d ''</body>''" by code_simp+
  then have oc: "\<not> occurs ''</head>'' ?d" "occurs ''</body>'' ?d" by (simp_all add: Contains_iff)
  then have ch: "chosen_marker ?d = ''</body>''" by (simp add: chosen_marker_def)
  from oc injectScript_newline_between [of ?d ?s] obtain pre suf
    where fo: "first_occurrence ?d (chosen_marker ?d) pre suf"
      and eq: "injectScript ?s ?d = pre @ ?s @ [CHR 0x0A] @ chosen_marker ?d @ suf"
      and len: "length (injectScript ?s ?d) = length ?d + length ?s + 1"
    by blast
  have "Index ?d ''</body>'' = Some 9" by code_simp
  from Index_first_occurrence [OF this]
  have "first_occurrence ?d ''</body>'' ''<p>hi</p>'' ''</body>''" by simp
  from first_occurrence_unique [OF fo [unfolded ch] this] eq ch
  have a: "injectScript ?s ?d = ''<p>hi</p><script></script>'' @ CHR 0x0A # ''</body></body>''"
    by simp
  from len have b: "length (injectScript ?s ?d) = 23 + 17 + 1" by simp
  let ?t = "''just text''"
  have "\<not> Contains ?t ''</head>''" "\<not> Contains ?t ''</body>''" "\<not> Contains ?t ''</html>''"
    by code_simp+
  then have "\<not> (occurs ''</head>'' ?t \<or> occurs ''</body>'' ?t \<or> occurs ''</html>'' ?t)"
    by (simp add: Contains_iff)
  with injectScript_newline_between [of ?t ?s]
  have c: "injectScript ?s ?t = ''just text<script></script>''"
    and d: "length (injectScript ?s ?t) = 9 + 17" by simp_all
  from a b c d show ?thesis by blast
qed

section \<open>The content classifier (claims C6 and C2)\<close>

text \<open>
  Claim C6: \<^const>\<open>isDevelopmentMode\<close> is true exactly when the host of the request
  contains or begins with \<open>localhost\<close> or \<open>127.0.0.1\<close>, whatever follows (a port or
  nothing); it is true for the hosts \<open>localhost:3000\<close>, \<open>127.0.0.1\<close> and
  \<open>127.0.0.1:8080\<close> and false for \<open>example.com\<close>.
\<close>

theorem isDevelopmentMode_iff:
  "(isDevelopmentMode r \<longleftrightarrow>
      occurs ''localhost'' (Host r) \<or> occurs ''127.0.0.1'' (Host r) \<or>
      begins_with ''localhost'' (Host r) \<or> begins_with ''127.0.0.1'' (Host r)) \<and>
   isDevelopmentMode \<lparr>Host = ''localhost:3000'', URL_Path = p\<rparr> \<and>
   isDevelopmentMode \<lparr>Host = ''127.0.0.1'', URL_Path = p\<rparr> \<and>
   isDevelopmentMode \<lparr>Host = ''127.0.0.1:8080'', URL_Path = p\<rparr> \<and>
   \<not> isDevelopmentMode \<lparr>Host = ''example.com'', URL_Path = p\<rparr>"
proof (intro conjI)
  have a: "HasPrefix (Host r) ''localhost:'' \<Longrightarrow> occurs ''localhost'' (Host r)"
    using begins_longer [of "''localhost''" "'':''" "Host r"] begins_occurs
    by (simp add: HasPrefix_begins)
  have b: "HasPrefix (Host r) ''127.0.0.1:'' \<Longrightarrow> occurs ''127.0.0.1'' (Host r)"
    using begins_longer [of "''127.0.0.1''" "'':''" "Host r"] begins_occurs
    by (simp add: HasPrefix_begins)
  show "isDevelopmentMode r \<longleftrightarrow>
      occurs ''localhost'' (Host r) \<or> occurs ''127.0.0.1'' (Host r) \<or>
      begins_with ''localhost'' (Host r) \<or> begins_with ''127.0.0.1'' (Host r)"
    unfolding isDevelopmentMode_def Let_def Contains_iff
    using a b begins_occurs by blast
  show "isDevelopmentMode \<lparr>Host = ''localhost:3000'', URL_Path = p\<rparr>"
    by (simp add: isDevelopmentMode_def Contains_def HasPrefix_def)
  show "isDevelopmentMode \<lparr>Host = ''127.0.0.1'', URL_Path = p\<rparr>"
    by (simp add: isDevelopmentMode_def Contains_def HasPrefix_def)
  show "isDevelopmentMode \<lparr>Host = ''127.0.0.1:8080'', URL_Path = p\<rparr>"
    by (simp add: isDevelopmentMode_def Contains_def HasPrefix_def)
  show "\<not> isDevelopmentMode \<lparr>Host = ''example.com'', URL_Path = p\<rparr>"
    by (simp add: isDevelopmentMode_def Contains_def HasPrefix_def)
qed

theorem isDevelopmentMode_iff_witness:
  "isDevelopmentMode \<lparr>Host = ''app.localhost.test:80'', URL_Path = ''/''\<rparr> \<and>
   isDevelopmentMode \<lparr>Host = ''localhost:3000'', URL_Path = ''/index.html''\<rparr> \<and>
   \<not> isDevelopmentMode \<lparr>Host = ''example.com'', URL_Path = ''/index.html''\<rparr>"
proof (intro conjI)
  have "Contains ''app.localhost.test:80'' ''localhost''" by code_simp
  then have "occurs ''localhost'' ''app.localhost.test:80''" by (simp add: Contains_iff)
  with isDevelopmentMode_iff [of "\<lparr>Host = ''app.localhost.test:80'', URL_Path = ''/''\<rparr>"]
  show "isDevelopmentMode \<lparr>Host = ''app.localhost.test:80'', URL_Path = ''/''\<rparr>" by simp
  from isDevelopmentMode_iff [of _ "''/index.html''"]
  show "isDevelopmentMode \<lparr>Host = ''localhost:3000'', URL_Path = ''/index.html''\<rparr>"
    and "\<not> isDevelopmentMode \<lparr>Host = ''example.com'', URL_Path = ''/index.html''\<rparr>"
    by blast+
qed

text \<open>
  Claim C2, as the specification states it, lets the body decide only when the
  Content-Type header is absent or ambiguous. The code looks at the body whenever the
  header's value does not contain \<open>text/html\<close>: a response whose header is present and
  names another type, \<open>application/json\<close>, is classified as HTML because of its body.
\<close>

theorem isHTMLResponse_json_header_sniffed:
  "Header_Get [(''Content-Type'', [''application/json''])] ''Content-Type'' = ''application/json'' \<and>
   \<not> Contains ''application/json'' ''text/html'' \<and>
   isHTMLResponse ''<html><body>x</body></html>'' [(''Content-Type'', [''application/json''])]"
  by code_simp

text \<open>
  Claim C2, amended: \<^const>\<open>isHTMLResponse\<close> is true exactly when the value of the
  Content-Type header contains \<open>text/html\<close> (bytes compared as they are), or the
  lower-cased body contains \<open><html\<close>, \<open><!doctype html\<close> or \<open><head>\<close>, or both
  \<open><body\<close> and \<open></body>\<close>, whatever the header says otherwise (absent, or naming another
  type). The header is tested first and the body is no further condition: with
  \<open>text/html\<close> in the Content-Type the result is true whatever the body is. Lower-casing
  folds the ASCII letters, so markers in upper or mixed case count; the header's value is
  not folded.
\<close>

theorem isHTMLResponse_header_or_body:
  "(isHTMLResponse doc headers \<longleftrightarrow>
      occurs ''text/html'' (Header_Get headers ''Content-Type'') \<or>
      occurs ''<html'' (ToLower doc) \<or> occurs ''<!doctype html'' (ToLower doc) \<or>
      occurs ''<head>'' (ToLower doc) \<or>
      (occurs ''<body'' (ToLower doc) \<and> occurs ''</body>'' (ToLower doc))) \<and>
   (occurs ''text/html'' (Header_Get headers ''Content-Type'') \<longrightarrow> isHTMLResponse doc headers) \<and>
   ToLower ''<!DOCTYPE HTML><HEAD><BODY></BODY>'' = ''<!doctype html><head><body></body>'' \<and>
   isHTMLResponse ''<!DOCTYPE html><html><body>hi</body></html>'' [] \<and>
   isHTMLResponse ''<HTML>'' [] \<and>
   isHTMLResponse ''<!DocType HTML>'' [] \<and>
   isHTMLResponse ''<HEAD>'' [] \<and>
   isHTMLResponse ''<BODY></BODY>'' [] \<and>
   \<not> isHTMLResponse ''<BODY>'' [] \<and>
   \<not> isHTMLResponse ''[1,2]'' [(''Content-Type'', [''application/json''])] \<and>
   \<not> isHTMLResponse ''[1,2]'' [(''Content-Type'', [''TEXT/HTML''])]"
proof (intro conjI)
  show "isHTMLResponse doc headers \<longleftrightarrow>
      occurs ''text/html'' (Header_Get headers ''Content-Type'') \<or>
      occurs ''<html'' (ToLower doc) \<or> occurs ''<!doctype html'' (ToLower doc) \<or>
      occurs ''<head>'' (ToLower doc) \<or>
      (occurs ''<body'' (ToLower doc) \<and> occurs ''</body>'' (ToLower doc))"
    unfolding isHTMLResponse_def Let_def Contains_iff by auto
  show "occurs ''text/html'' (Header_Get headers ''Content-Type'') \<longrightarrow> isHTMLResponse doc headers"
    unfolding isHTMLResponse_def Let_def Contains_iff by simp
  show "ToLower ''<!DOCTYPE HTML><HEAD><BODY></BODY>'' = ''<!doctype html><head><body></body>''"
    by code_simp
  show "isHTMLResponse ''<!DOCTYPE html><html><body>hi</body></html>'' []" by code_simp
  show "isHTMLResponse ''<HTML>'' []" by code_simp
  show "isHTMLResponse ''<!DocType HTML>'' []" by code_simp
  show "isHTMLResponse ''<HEAD>'' []" by code_simp
  show "isHTMLResponse ''<BODY></BODY>'' []" by code_simp
  show "\<not> isHTMLResponse ''<BODY>'' []" by code_simp
  show "\<not> isHTMLResponse ''[1,2]'' [(''Content-Type'', [''application/json''])]" by code_simp
  show "\<not> isHTMLResponse ''[1,2]'' [(''Content-Type'', [''TEXT/HTML''])]" by code_simp
qed

text \<open>
  The statement at an HTML content type with a body that is not HTML, at a JSON content
  type with an upper-case HTML document, and at plain text that is neither.
\<close>

theorem isHTMLResponse_header_or_body_witness:
  "isHTMLResponse ''[1,2]'' [(''Content-Type'', [''text/html; charset=utf-8''])] \<and>
   isHTMLResponse ''<HTML><BODY>hi</BODY></HTML>'' [(''Content-Type'', [''application/json''])] \<and>
   \<not> isHTMLResponse ''<p>hi</p>'' [(''Content-Type'', [''text/plain''])]"
proof (intro conjI)
  let ?h = "[(''Content-Type'', [''text/html; charset=utf-8''])]"
  have "Contains (Header_Get ?h ''Content-Type'') ''text/html''" by code_simp
  then have "occurs ''text/html'' (Header_Get ?h ''Content-Type'')" by (simp add: Contains_iff)
  with isHTMLResponse_header_or_body [of "''[1,2]''" ?h] show "isHTMLResponse ''[1,2]'' ?h"
    by blast
next
  let ?h = "[(''Content-Type'', [''application/json''])]"
  let ?d = "''<HTML><BODY>hi</BODY></HTML>''"
  have "Contains (ToLower ?d) ''<html''" by code_simp
  then have "occurs ''<html'' (ToLower ?d)" by (simp add: Contains_iff)
  with isHTMLResponse_header_or_body [of ?d ?h] show "isHTMLResponse ?d ?h" by blast
next
  let ?h = "[(''Content-Type'', [''text/plain''])]"
  let ?d = "''<p>hi</p>''"
  have "\<not> Contains (Header_Get ?h ''Content-Type'') ''text/html''"
    "\<not> Contains (ToLower ?d) ''<html''"
    "\<not> Contains (ToLower ?d) ''<!doctype html''"
    "\<not> Contains (ToLower ?d) ''<head>''"
    "\<not> Contains (ToLower ?d) ''<body''" by code_simp+
  then have "\<not> occurs ''text/html'' (Header_Get ?h ''Content-Type'')"
    "\<not> occurs ''<html'' (ToLower ?d)"
    "\<not> occurs ''<!doctype html'' (ToLower ?d)"
    "\<not> occurs ''<head>'' (ToLower ?d)"
    "\<not> occurs ''<body'' (ToLower ?d)" by (simp_all add: Contains_iff)
  with isHTMLResponse_header_or_body [of ?d ?h] show "\<not> isHTMLResponse ?d ?h" by blast
qed

section \<open>Properties of header maps and of the capturer\<close>

lemma of_char_upper:
  assumes "97 \<le> (of_char c :: nat)" and "(of_char c :: nat) \<le> 122"
  shows "(of_char (upperByte c) :: nat) = of_char c - 32"
proof -
  from assms have "upperByte c = char_of (of_char c - 32 :: nat)" by (simp add: upperByte_def)
  then have "(of_char (upperByte c) :: nat) = (of_char c - 32) mod 256" by simp
  with assms show ?thesis by simp
qed

lemma of_char_lower:
  assumes "65 \<le> (of_char c :: nat)" and "(of_char c :: nat) \<le> 90"
  shows "(of_char (lowerByte c) :: nat) = of_char c + 32"
proof -
  from assms have "lowerByte c = char_of (of_char c + 32 :: nat)" by (simp add: lowerByte_def)
  then have "(of_char (lowerByte c) :: nat) = (of_char c + 32) mod 256" by simp
  with assms show ?thesis by simp
qed

lemma upperByte_other: "\<not> (97 \<le> (of_char c :: nat) \<and> (of_char c :: nat) \<le> 122) \<Longrightarrow> upperByte c = c"
  by (auto simp: upperByte_def Let_def)

lemma lowerByte_other: "\<not> (65 \<le> (of_char c :: nat) \<and> (of_char c :: nat) \<le> 90) \<Longrightarrow> lowerByte c = c"
  by (auto simp: lowerByte_def Let_def)

lemma upperByte_idem: "upperByte (upperByte c) = upperByte c"
proof (cases "97 \<le> (of_char c :: nat) \<and> (of_char c :: nat) \<le> 122")
  case True
  then have "(of_char (upperByte c) :: nat) = of_char c - 32" by (simp add: of_char_upper)
  with True have "\<not> (97 \<le> (of_char (upperByte c) :: nat) \<and> (of_char (upperByte c) :: nat) \<le> 122)"
    by linarith
  then show ?thesis by (rule upperByte_other)
next
  case False
  then show ?thesis by (simp add: upperByte_other)
qed

lemma lowerByte_idem: "lowerByte (lowerByte c) = lowerByte c"
proof (cases "65 \<le> (of_char c :: nat) \<and> (of_char c :: nat) \<le> 90")
  case True
  then have "(of_char (lowerByte c) :: nat) = of_char c + 32" by (simp add: of_char_lower)
  with True have "\<not> (65 \<le> (of_char (lowerByte c) :: nat) \<and> (of_char (lowerByte c) :: nat) \<le> 90)"
    by linarith
  then show ?thesis by (rule lowerByte_other)
next
  case False
  then show ?thesis by (simp add: lowerByte_other)
qed

lemma valid_upper_letter:
  "65 \<le> (of_char c :: nat) \<Longrightarrow> (of_char c :: nat) \<le> 90 \<Longrightarrow> validHeaderFieldByte c"
  unfolding validHeaderFieldByte_def Let_def by blast

lemma valid_lower_letter:
  "97 \<le> (of_char c :: nat) \<Longrightarrow> (of_char c :: nat) \<le> 122 \<Longrightarrow> validHeaderFieldByte c"
  unfolding validHeaderFieldByte_def Let_def by blast

lemma valid_upperByte: "validHeaderFieldByte c \<Longrightarrow> validHeaderFieldByte (upperByte c)"
proof (cases "97 \<le> (of_char c :: nat) \<and> (of_char c :: nat) \<le> 122")
  case True
  then have "(of_char (upperByte c) :: nat) = of_char c - 32" by (simp add: of_char_upper)
  with True have "65 \<le> (of_char (upperByte c) :: nat)" "(of_char (upperByte c) :: nat) \<le> 90"
    by linarith+
  then show ?thesis by (rule valid_upper_letter)
next
  case False
  assume "validHeaderFieldByte c"
  with False show ?thesis by (simp add: upperByte_other)
qed

lemma valid_lowerByte: "validHeaderFieldByte c \<Longrightarrow> validHeaderFieldByte (lowerByte c)"
proof (cases "65 \<le> (of_char c :: nat) \<and> (of_char c :: nat) \<le> 90")
  case True
  then have "(of_char (lowerByte c) :: nat) = of_char c + 32" by (simp add: of_char_lower)
  with True have "97 \<le> (of_char (lowerByte c) :: nat)" "(of_char (lowerByte c) :: nat) \<le> 122"
    by linarith+
  then show ?thesis by (rule valid_lower_letter)
next
  case False
  assume "validHeaderFieldByte c"
  with False show ?thesis by (simp add: lowerByte_other)
qed

lemma canonicalMIMEHeaderKey_idem:
  "canonicalMIMEHeaderKey u (canonicalMIMEHeaderKey u s) = canonicalMIMEHeaderKey u s"
  by (induction s arbitrary: u) (simp_all add: Let_def upperByte_idem lowerByte_idem)

lemma canonicalMIMEHeaderKey_valid:
  "list_all validHeaderFieldByte s \<Longrightarrow> list_all validHeaderFieldByte (canonicalMIMEHeaderKey u s)"
  by (induction s arbitrary: u) (simp_all add: Let_def valid_upperByte valid_lowerByte)

lemma CanonicalMIMEHeaderKey_idem:
  "CanonicalMIMEHeaderKey (CanonicalMIMEHeaderKey s) = CanonicalMIMEHeaderKey s"
  by (simp add: CanonicalMIMEHeaderKey_def canonicalMIMEHeaderKey_idem canonicalMIMEHeaderKey_valid)

lemma canonical_keys_update:
  assumes "canonical_keys h"
  shows "canonical_keys (AList.update (CanonicalMIMEHeaderKey key) vs h)"
  using assms unfolding canonical_keys_def
  by (simp add: distinct_update update_keys CanonicalMIMEHeaderKey_idem)

lemma canonical_keys_delete:
  assumes "canonical_keys h"
  shows "canonical_keys (AList.delete k h)"
proof -
  from assms have "distinct (map fst (AList.delete k h))"
    unfolding canonical_keys_def by (simp add: distinct_delete)
  moreover from assms have "list_all (\<lambda>key. CanonicalMIMEHeaderKey key = key) (map fst (AList.delete k h))"
    unfolding canonical_keys_def by (auto simp: delete_keys list_all_iff)
  ultimately show ?thesis unfolding canonical_keys_def by simp
qed

lemma canonical_keys_run:
  "canonical_keys (header (ResponseWriter rw)) \<Longrightarrow>
   canonical_keys (header (ResponseWriter (run_captured k rw)))"
proof (induction k arbitrary: rw)
  case (Call_Write b k)
  have "k (length b) \<in> range k" and "k (length b) None \<in> range (k (length b))" by simp_all
  from Call_Write.IH [OF this] Call_Write.prems show ?case by (simp add: rw_Write_def)
next
  case (Call_WriteHeader code k)
  then show ?case by (simp add: rw_WriteHeader_def)
next
  case (Call_HeaderSet key v k)
  from Call_HeaderSet.prems
  have "canonical_keys (header (w_HeaderSet (ResponseWriter rw) key v))"
    by (simp add: w_HeaderSet_def Header_Set_def canonical_keys_update)
  with Call_HeaderSet.IH show ?case by simp
next
  case (Call_HeaderAdd key v k)
  from Call_HeaderAdd.prems
  have "canonical_keys (header (w_HeaderAdd (ResponseWriter rw) key v))"
    by (simp add: w_HeaderAdd_def Header_Add_def Let_def canonical_keys_update)
  with Call_HeaderAdd.IH show ?case by simp
next
  case (Call_HeaderDel key k)
  from Call_HeaderDel.prems
  have "canonical_keys (header (w_HeaderDel (ResponseWriter rw) key))"
    by (simp add: w_HeaderDel_def Header_Del_def canonical_keys_delete)
  with Call_HeaderDel.IH show ?case by simp
next
  case (Call_HeaderRead k)
  have "k (rw_Header rw) \<in> range k" by simp
  from Call_HeaderRead.IH [OF this] Call_HeaderRead.prems show ?case by simp
qed simp

lemma wire_run_captured:
  "filter is_wire (calls (ResponseWriter (run_captured k rw))) =
   filter is_wire (calls (ResponseWriter rw))"
proof (induction k arbitrary: rw)
  case (Call_Write b k)
  have "k (length b) \<in> range k" and "k (length b) None \<in> range (k (length b))" by simp_all
  from Call_Write.IH [OF this] show ?case by (simp add: rw_Write_def)
next
  case (Call_HeaderRead k)
  have "k (rw_Header rw) \<in> range k" by simp
  from Call_HeaderRead.IH [OF this] show ?case by simp
qed (simp_all add: rw_WriteHeader_def w_HeaderSet_def w_HeaderAdd_def w_HeaderDel_def)


lemma copyValues_header:
  assumes "CanonicalMIMEHeaderKey key = key" and "map_of (header w) key = Some vs"
  shows "header (copyValues w key vals) = AList.update key (vs @ vals) (header w)"
  using assms(2) unfolding copyValues_def
proof (induction vals arbitrary: w vs)
  case Nil
  then show ?case by (simp add: update_triv)
next
  case (Cons v vals)
  have "map_of (header (w_HeaderAdd w key v)) key = Some (vs @ [v])"
    using Cons.prems assms(1) by (simp add: w_HeaderAdd_def Header_Add_def update_conv')
  from Cons.IH [OF this] show ?case
    using Cons.prems assms(1) by (simp add: w_HeaderAdd_def Header_Add_def)
qed

lemma update_middle:
  "key \<notin> fst ` set xs \<Longrightarrow> AList.update key v (xs @ (key, v') # ys) = xs @ (key, v) # ys"
  by (induction xs) auto

lemma map_of_middle:
  "key \<notin> fst ` set xs \<Longrightarrow> map_of (xs @ (key, v) # ys) key = Some v"
  by (induction xs) auto

lemma copy_loop_header:
  assumes "canonical_keys (h1 @ h2)" and "header w = twice h1 @ h2"
  shows "header (foldl (\<lambda>w' key. case map_of (header w') key of
                        None \<Rightarrow> w'
                      | Some vals \<Rightarrow> copyValues w' key vals) w (map fst h2)) = twice (h1 @ h2)"
  using assms
proof (induction h2 arbitrary: h1 w)
  case Nil
  then show ?case by simp
next
  case (Cons e h2)
  obtain key vals where e: "e = (key, vals)" by (cases e)
  from Cons.prems(1) e have canon: "CanonicalMIMEHeaderKey key = key"
    and notin: "key \<notin> fst ` set h1"
    by (auto simp: canonical_keys_def)
  then have notin': "key \<notin> fst ` set (twice h1)" by (force simp: twice_def)
  from Cons.prems(2) e have hw: "header w = twice h1 @ (key, vals) # h2" by simp
  have look: "map_of (header w) key = Some vals"
    unfolding hw by (rule map_of_middle [OF notin'])
  have "header (copyValues w key vals) = twice h1 @ (key, vals @ vals) # h2"
    using copyValues_header [OF canon look, of vals] Cons.prems(2) e
    by (simp add: update_middle [OF notin'])
  then have h: "header (copyValues w key vals) = twice (h1 @ [e]) @ h2"
    by (simp add: twice_def e)
  from Cons.prems(1) have "canonical_keys ((h1 @ [e]) @ h2)" by simp
  from Cons.IH [OF this h] look show ?case by (simp add: e)
qed

lemma copyHeaders_header:
  assumes "canonical_keys (header w)"
  shows "header (copyHeaders w) = twice (header w)"
  using copy_loop_header [of "[]" "header w" w] assms
  by (simp add: copyHeaders_def twice_def)



lemma catchAll_not_dev: "\<not> isDevelopmentMode r \<Longrightarrow> catchAll s next w r = run_direct (next r) w"
  by (simp add: catchAll_def)

lemma catchAll_dev_plain:
  assumes "isDevelopmentMode r"
    and "\<not> isHTMLResponse (body (captured next w r)) (rw_Header (captured next w r))"
  shows "catchAll s next w r =
     fst (w_Write (if statusCode (captured next w r) \<noteq> 200
                   then w_WriteHeader (ResponseWriter (captured next w r)) (statusCode (captured next w r))
                   else ResponseWriter (captured next w r))
            (body (captured next w r)))"
  using assms by (simp add: catchAll_def captured_def Let_def)

lemma catchAll_dev_html:
  assumes "isDevelopmentMode r"
    and "isHTMLResponse (body (captured next w r)) (rw_Header (captured next w r))"
  shows "catchAll s next w r =
     fst (w_Write (copyHeaders (if statusCode (captured next w r) \<noteq> 200
                   then w_WriteHeader (ResponseWriter (captured next w r)) (statusCode (captured next w r))
                   else ResponseWriter (captured next w r)))
            (injectScript s (body (captured next w r))))"
  using assms by (simp add: catchAll_def captured_def Let_def)




lemma canonical_keys_captured:
  "canonical_keys (header w) \<Longrightarrow> canonical_keys (rw_Header (captured next w r))"
  unfolding captured_def rw_Header_def by (rule canonical_keys_run) simp

section \<open>The response capturer (claim C7)\<close>

text \<open>
  Claim C7: \<^verbatim>\<open>Write\<close> on the capturer returns the number of bytes it was given and a
  nil error and appends the bytes to the buffer; \<^verbatim>\<open>WriteHeader\<close> records the code.
  Neither touches the real response writer, and however the wrapped handler uses the
  capturer, no status code and no body bytes have reached the real writer when the handler
  returns: they get there only when the dispatcher flushes.
\<close>

theorem capturer_buffers:
  "snd (rw_Write rw b) = (length b, None) \<and>
   body (fst (rw_Write rw b)) = body rw @ b \<and>
   ResponseWriter (fst (rw_Write rw b)) = ResponseWriter rw \<and>
   statusCode (rw_WriteHeader rw code) = code \<and>
   ResponseWriter (rw_WriteHeader rw code) = ResponseWriter rw \<and>
   filter is_wire (calls (ResponseWriter (run_captured k rw))) =
     filter is_wire (calls (ResponseWriter rw)) \<and>
   filter is_wire (calls (ResponseWriter (captured next w r))) = filter is_wire (calls w)"
  by (simp add: rw_Write_def rw_WriteHeader_def wire_run_captured captured_def)

text \<open>
  The error page handler on a fresh writer: three header changes have gone through to the
  real writer, the two writes and the status are in the capturer.
\<close>

theorem capturer_buffers_witness:
  "captured errorPageHandler \<lparr>header = [], calls = []\<rparr> \<lparr>Host = ''localhost'', URL_Path = ''/''\<rparr> =
     \<lparr>ResponseWriter =
        \<lparr>header = [(''Content-Type'', [''text/html'']), (''Set-Cookie'', [''a=1'', ''b=2''])],
         calls = [Ev_HeaderAdd ''content-type'' ''text/html'', Ev_HeaderAdd ''Set-Cookie'' ''a=1'',
                  Ev_HeaderAdd ''Set-Cookie'' ''b=2'']\<rparr>,
      body = ''<html><body>oops</body></html>'', statusCode = 500\<rparr> \<and>
   filter is_wire (calls (ResponseWriter
     (captured errorPageHandler \<lparr>header = [], calls = []\<rparr> \<lparr>Host = ''localhost'', URL_Path = ''/''\<rparr>))) = []"
proof
  show "captured errorPageHandler \<lparr>header = [], calls = []\<rparr> \<lparr>Host = ''localhost'', URL_Path = ''/''\<rparr> =
     \<lparr>ResponseWriter =
        \<lparr>header = [(''Content-Type'', [''text/html'']), (''Set-Cookie'', [''a=1'', ''b=2''])],
         calls = [Ev_HeaderAdd ''content-type'' ''text/html'', Ev_HeaderAdd ''Set-Cookie'' ''a=1'',
                  Ev_HeaderAdd ''Set-Cookie'' ''b=2'']\<rparr>,
      body = ''<html><body>oops</body></html>'', statusCode = 500\<rparr>"
    by code_simp
  from capturer_buffers [of _ _ _ _ errorPageHandler "\<lparr>header = [], calls = []\<rparr>"
      "\<lparr>Host = ''localhost'', URL_Path = ''/''\<rparr>"]
  show "filter is_wire (calls (ResponseWriter
     (captured errorPageHandler \<lparr>header = [], calls = []\<rparr> \<lparr>Host = ''localhost'', URL_Path = ''/''\<rparr>))) = []"
    by simp
qed

section \<open>The dispatcher (claims C4, C5, C9 and C3)\<close>

lemma cleanPath_examples:
  "cleanPath ''/'' = ''/'' \<and> cleanPath ''/ws/livereload'' = ''/ws/livereload'' \<and>
   cleanPath ''/a/b.html'' = ''/a/b.html'' \<and> cleanPath ''/a/b/'' = ''/a/b/'' \<and>
   cleanPath [] = ''/'' \<and> cleanPath ''a'' = ''/a'' \<and>
   cleanPath ''/docs//index.html'' = ''/docs/index.html'' \<and>
   cleanPath ''/a/./b/../c/'' = ''/a/c/'' \<and> cleanPath ''/../a/..'' = ''/''"
  by code_simp

text \<open>
  Claim C4, as the specification states it, holds for every request that is not for the
  notification route and not in development mode. A request for \<open>/docs//index.html\<close> under
  host \<open>example.com\<close> is such a request, and the wrapped handler is not invoked for it: the
  router answers with a redirect to \<open>/docs/index.html\<close>, where the handler invoked directly
  sets a header and a status and writes its body.
\<close>

theorem Middleware_redirects_unclean_path:
  "URL_Path \<lparr>Host = ''example.com'', URL_Path = ''/docs//index.html''\<rparr> \<noteq> ''/ws/livereload'' \<and>
   \<not> isDevelopmentMode \<lparr>Host = ''example.com'', URL_Path = ''/docs//index.html''\<rparr> \<and>
   Middleware ''<s>'' 1700000000 htmlHandler 3 env_client_leaves \<lparr>header = [], calls = []\<rparr>
       \<lparr>Host = ''example.com'', URL_Path = ''/docs//index.html''\<rparr> =
     Redirect ''/docs/index.html'' \<and>
   run_direct (htmlHandler \<lparr>Host = ''example.com'', URL_Path = ''/docs//index.html''\<rparr>)
       \<lparr>header = [], calls = []\<rparr> =
     \<lparr>header = [(''Content-Type'', [''text/html''])],
      calls = [Ev_HeaderSet ''Content-Type'' ''text/html'', Ev_WriteHeader 200,
               Ev_Write ''<html><head></head><body>hi</body></html>'']\<rparr>"
proof (intro conjI)
  show "URL_Path \<lparr>Host = ''example.com'', URL_Path = ''/docs//index.html''\<rparr> \<noteq> ''/ws/livereload''"
    by simp
  show "\<not> isDevelopmentMode \<lparr>Host = ''example.com'', URL_Path = ''/docs//index.html''\<rparr>"
    by code_simp
  have "cleanPath ''/docs//index.html'' = ''/docs/index.html''" by code_simp
  then show "Middleware ''<s>'' 1700000000 htmlHandler 3 env_client_leaves \<lparr>header = [], calls = []\<rparr>
       \<lparr>Host = ''example.com'', URL_Path = ''/docs//index.html''\<rparr> =
     Redirect ''/docs/index.html''"
    by (simp add: Middleware_def)
  show "run_direct (htmlHandler \<lparr>Host = ''example.com'', URL_Path = ''/docs//index.html''\<rparr>)
       \<lparr>header = [], calls = []\<rparr> =
     \<lparr>header = [(''Content-Type'', [''text/html''])],
      calls = [Ev_HeaderSet ''Content-Type'' ''text/html'', Ev_WriteHeader 200,
               Ev_Write ''<html><head></head><body>hi</body></html>'']\<rparr>"
    by code_simp
qed

text \<open>
  Claim C4, amended: for every request whose path is in the clean form the router keeps,
  is not the notification route, and whose host is not in development mode, the composite
  handler does to the real response writer exactly what the wrapped handler does when
  invoked on it directly: the same header map and the same calls in the same order, nothing
  buffered, nothing changed. For the HTML handler under host \<open>example.com\<close> the body goes
  out byte for byte, without the snippet.
\<close>

theorem Middleware_passthrough:
  "(cleanPath (URL_Path r) = URL_Path r \<and> URL_Path r \<noteq> ''/ws/livereload'' \<and>
    \<not> isDevelopmentMode r \<longrightarrow>
      Middleware s t next fuel env w r = Http (run_direct (next r) w)) \<and>
   Middleware s t htmlHandler fuel env \<lparr>header = [], calls = []\<rparr>
       \<lparr>Host = ''example.com'', URL_Path = ''/''\<rparr> =
     Http \<lparr>header = [(''Content-Type'', [''text/html''])],
           calls = [Ev_HeaderSet ''Content-Type'' ''text/html'', Ev_WriteHeader 200,
                    Ev_Write ''<html><head></head><body>hi</body></html>'']\<rparr>"
proof (intro conjI impI)
  assume "cleanPath (URL_Path r) = URL_Path r \<and> URL_Path r \<noteq> ''/ws/livereload'' \<and>
    \<not> isDevelopmentMode r"
  then show "Middleware s t next fuel env w r = Http (run_direct (next r) w)"
    by (simp add: Middleware_def catchAll_not_dev)
next
  have cl: "cleanPath ''/'' = ''/''" by code_simp
  have nd: "\<not> isDevelopmentMode \<lparr>Host = ''example.com'', URL_Path = ''/''\<rparr>" by code_simp
  have run: "run_direct (htmlHandler \<lparr>Host = ''example.com'', URL_Path = ''/''\<rparr>) \<lparr>header = [], calls = []\<rparr> =
      \<lparr>header = [(''Content-Type'', [''text/html''])],
           calls = [Ev_HeaderSet ''Content-Type'' ''text/html'', Ev_WriteHeader 200,
                    Ev_Write ''<html><head></head><body>hi</body></html>'']\<rparr>" by code_simp
  from cl nd run show "Middleware s t htmlHandler fuel env \<lparr>header = [], calls = []\<rparr>
       \<lparr>Host = ''example.com'', URL_Path = ''/''\<rparr> =
     Http \<lparr>header = [(''Content-Type'', [''text/html''])],
           calls = [Ev_HeaderSet ''Content-Type'' ''text/html'', Ev_WriteHeader 200,
                    Ev_Write ''<html><head></head><body>hi</body></html>'']\<rparr>"
    by (simp add: Middleware_def catchAll_not_dev)
qed

text \<open>The statement at the error page handler under another host that is not local.\<close>

theorem Middleware_passthrough_witness:
  "Middleware ''<s>'' 1700000000 errorPageHandler 3 env_client_leaves \<lparr>header = [], calls = []\<rparr>
       \<lparr>Host = ''breezy.example.org'', URL_Path = ''/missing''\<rparr> =
     Http \<lparr>header = [(''Content-Type'', [''text/html'']), (''Set-Cookie'', [''a=1'', ''b=2''])],
           calls = [Ev_HeaderAdd ''content-type'' ''text/html'', Ev_HeaderAdd ''Set-Cookie'' ''a=1'',
                    Ev_HeaderAdd ''Set-Cookie'' ''b=2'', Ev_Write ''<html><body>'',
                    Ev_WriteHeader 500, Ev_Write ''oops</body></html>'']\<rparr>"
proof -
  let ?r = "\<lparr>Host = ''breezy.example.org'', URL_Path = ''/missing''\<rparr>"
  have "cleanPath (URL_Path ?r) = URL_Path ?r" by code_simp
  moreover have "URL_Path ?r \<noteq> ''/ws/livereload'' \<and> \<not> isDevelopmentMode ?r" by code_simp
  ultimately have "Middleware ''<s>'' 1700000000 errorPageHandler 3 env_client_leaves
      \<lparr>header = [], calls = []\<rparr> ?r
      = Http (run_direct (errorPageHandler ?r) \<lparr>header = [], calls = []\<rparr>)"
    using Middleware_passthrough [of ?r "''<s>''" 1700000000 errorPageHandler 3 env_client_leaves
      "\<lparr>header = [], calls = []\<rparr>"] by blast
  moreover have "run_direct (errorPageHandler ?r) \<lparr>header = [], calls = []\<rparr> =
      \<lparr>header = [(''Content-Type'', [''text/html'']), (''Set-Cookie'', [''a=1'', ''b=2''])],
           calls = [Ev_HeaderAdd ''content-type'' ''text/html'', Ev_HeaderAdd ''Set-Cookie'' ''a=1'',
                    Ev_HeaderAdd ''Set-Cookie'' ''b=2'', Ev_Write ''<html><body>'',
                    Ev_WriteHeader 500, Ev_Write ''oops</body></html>'']\<rparr>" by code_simp
  ultimately show ?thesis by simp
qed

text \<open>
  Claim C5: for every development-mode request whose captured response is not classified
  as HTML, the dispatcher writes the captured status code to the real response only when
  it is not 200 and then writes the captured body as it is, and does nothing else. A
  handler that sets status 404 and writes a JSON body, under host \<open>localhost\<close>, ends with
  status 404 and that body on the real response.
\<close>

theorem catchAll_not_html:
  "(isDevelopmentMode r \<and>
    \<not> isHTMLResponse (body (captured next w r)) (rw_Header (captured next w r)) \<longrightarrow>
      catchAll s next w r =
        (ResponseWriter (captured next w r))
          \<lparr>calls := calls (ResponseWriter (captured next w r)) @
             (if statusCode (captured next w r) \<noteq> 200
              then [Ev_WriteHeader (statusCode (captured next w r))] else []) @
             [Ev_Write (body (captured next w r))]\<rparr>) \<and>
   catchAll s notFoundHandler \<lparr>header = [], calls = []\<rparr> \<lparr>Host = ''localhost'', URL_Path = p\<rparr> =
     \<lparr>header = [(''Content-Type'', [''application/json''])],
      calls = [Ev_HeaderSet ''Content-Type'' ''application/json'', Ev_WriteHeader 404,
               Ev_Write ''[1,2,3]'']\<rparr>"
proof (intro conjI impI)
  assume a: "isDevelopmentMode r \<and>
    \<not> isHTMLResponse (body (captured next w r)) (rw_Header (captured next w r))"
  then show "catchAll s next w r =
        (ResponseWriter (captured next w r))
          \<lparr>calls := calls (ResponseWriter (captured next w r)) @
             (if statusCode (captured next w r) \<noteq> 200
              then [Ev_WriteHeader (statusCode (captured next w r))] else []) @
             [Ev_Write (body (captured next w r))]\<rparr>"
    by (simp add: catchAll_dev_plain w_Write_def w_WriteHeader_def)
next
  have dev: "isDevelopmentMode \<lparr>Host = ''localhost'', URL_Path = p\<rparr>"
    by (simp add: isDevelopmentMode_def Contains_def HasPrefix_def)
  have c: "captured notFoundHandler \<lparr>header = [], calls = []\<rparr> \<lparr>Host = ''localhost'', URL_Path = p\<rparr> =
      \<lparr>ResponseWriter = \<lparr>header = [(''Content-Type'', [''application/json''])],
         calls = [Ev_HeaderSet ''Content-Type'' ''application/json'']\<rparr>,
       body = ''[1,2,3]'', statusCode = 404\<rparr>"
    by code_simp
  have nh: "\<not> isHTMLResponse ''[1,2,3]'' [(''Content-Type'', [''application/json''])]"
    by code_simp
  from dev nh show "catchAll s notFoundHandler \<lparr>header = [], calls = []\<rparr> \<lparr>Host = ''localhost'', URL_Path = p\<rparr> =
     \<lparr>header = [(''Content-Type'', [''application/json''])],
      calls = [Ev_HeaderSet ''Content-Type'' ''application/json'', Ev_WriteHeader 404,
               Ev_Write ''[1,2,3]'']\<rparr>"
    by (simp add: catchAll_dev_plain c rw_Header_def w_Write_def w_WriteHeader_def)
qed

text \<open>
  The statement at a plain text reply that sets no status: no status is written, the body
  goes out in one piece, and what was on the real writer before stays.
\<close>

theorem catchAll_not_html_witness:
  "catchAll ''<s>'' plainHandler \<lparr>header = [], calls = [Ev_HeaderSet ''Server'' ''x'']\<rparr>
       \<lparr>Host = ''127.0.0.1:8080'', URL_Path = ''/''\<rparr> =
     \<lparr>header = [], calls = [Ev_HeaderSet ''Server'' ''x'', Ev_Write ''hello world'']\<rparr>"
proof -
  let ?w = "\<lparr>header = [], calls = [Ev_HeaderSet ''Server'' ''x'']\<rparr>"
  let ?r = "\<lparr>Host = ''127.0.0.1:8080'', URL_Path = ''/''\<rparr>"
  have dev: "isDevelopmentMode ?r" by code_simp
  have c: "captured plainHandler ?w ?r =
      \<lparr>ResponseWriter = ?w, body = ''hello world'', statusCode = 200\<rparr>" by code_simp
  have nh: "\<not> isHTMLResponse ''hello world'' []" by code_simp
  from catchAll_not_html [of ?r plainHandler ?w "''<s>''"] dev nh
  show ?thesis by (simp add: c rw_Header_def)
qed

text \<open>
  Claim C9: the capturer's \<^verbatim>\<open>Header()\<close> is the real writer's own header map, so the loop
  of the HTML branch adds every value of that map to the map it reads from: for a
  development-mode request classified as HTML, on a real writer whose header map is well
  formed, the header map after the flush is the map the handler left with every list of
  values twice over. The specification's HTML handler ends with \<open>text/html\<close> twice under
  \<open>Content-Type\<close>.
\<close>

theorem catchAll_html_headers_twice:
  "(isDevelopmentMode r \<and> canonical_keys (header w) \<and>
    isHTMLResponse (body (captured next w r)) (rw_Header (captured next w r)) \<longrightarrow>
      header (catchAll s next w r) = twice (rw_Header (captured next w r))) \<and>
   rw_Header rw = header (ResponseWriter rw) \<and>
   header (catchAll s htmlHandler \<lparr>header = [], calls = []\<rparr> \<lparr>Host = ''localhost:8080'', URL_Path = p\<rparr>) =
     [(''Content-Type'', [''text/html'', ''text/html''])]"
proof (intro conjI impI)
  assume a: "isDevelopmentMode r \<and> canonical_keys (header w) \<and>
    isHTMLResponse (body (captured next w r)) (rw_Header (captured next w r))"
  let ?c = "captured next w r"
  let ?w2 = "if statusCode ?c \<noteq> 200 then w_WriteHeader (ResponseWriter ?c) (statusCode ?c)
             else ResponseWriter ?c"
  have h2: "header ?w2 = rw_Header ?c" by (simp add: w_WriteHeader_def rw_Header_def)
  from a have "canonical_keys (rw_Header ?c)" by (simp add: canonical_keys_captured)
  with h2 have "canonical_keys (header ?w2)" by simp
  then have "header (copyHeaders ?w2) = twice (header ?w2)" by (rule copyHeaders_header)
  with h2 have "header (copyHeaders ?w2) = twice (rw_Header ?c)" by simp
  moreover from a have "catchAll s next w r =
      fst (w_Write (copyHeaders ?w2) (injectScript s (body ?c)))"
    by (simp add: catchAll_dev_html)
  ultimately show "header (catchAll s next w r) = twice (rw_Header ?c)"
    by (simp add: w_Write_def)
next
  show "rw_Header rw = header (ResponseWriter rw)" by (simp add: rw_Header_def)
next
  let ?r = "\<lparr>Host = ''localhost:8080'', URL_Path = p\<rparr>"
  let ?w = "\<lparr>header = [], calls = []\<rparr>"
  have dev: "isDevelopmentMode ?r"
    by (simp add: isDevelopmentMode_def Contains_def HasPrefix_def)
  have c: "captured htmlHandler ?w ?r =
      \<lparr>ResponseWriter = \<lparr>header = [(''Content-Type'', [''text/html''])],
         calls = [Ev_HeaderSet ''Content-Type'' ''text/html'']\<rparr>,
       body = ''<html><head></head><body>hi</body></html>'', statusCode = 200\<rparr>"
    by code_simp
  have html: "isHTMLResponse ''<html><head></head><body>hi</body></html>''
      [(''Content-Type'', [''text/html''])]" by code_simp
  have cp: "header (copyHeaders \<lparr>header = [(''Content-Type'', [''text/html''])],
         calls = [Ev_HeaderSet ''Content-Type'' ''text/html'']\<rparr>) =
      [(''Content-Type'', [''text/html'', ''text/html''])]" by code_simp
  from dev html show "header (catchAll s htmlHandler ?w ?r) =
     [(''Content-Type'', [''text/html'', ''text/html''])]"
    by (simp add: catchAll_dev_html c rw_Header_def w_Write_def cp)
qed

text \<open>
  The statement at the error page handler, on a real writer that came with a header of its
  own: that one is doubled as well.
\<close>

theorem catchAll_html_headers_twice_witness:
  "header (catchAll ''<s>'' errorPageHandler \<lparr>header = [(''Server'', [''breezy''])], calls = []\<rparr>
       \<lparr>Host = ''localhost'', URL_Path = ''/missing''\<rparr>) =
     [(''Server'', [''breezy'', ''breezy'']), (''Content-Type'', [''text/html'', ''text/html'']),
      (''Set-Cookie'', [''a=1'', ''b=2'', ''a=1'', ''b=2''])]"
proof -
  let ?w = "\<lparr>header = [(''Server'', [''breezy''])], calls = []\<rparr>"
  let ?r = "\<lparr>Host = ''localhost'', URL_Path = ''/missing''\<rparr>"
  have dev: "isDevelopmentMode ?r" by code_simp
  have ck: "canonical_keys (header ?w)" by code_simp
  have c: "captured errorPageHandler ?w ?r =
     \<lparr>ResponseWriter =
        \<lparr>header = [(''Server'', [''breezy'']), (''Content-Type'', [''text/html'']),
                   (''Set-Cookie'', [''a=1'', ''b=2''])],
         calls = [Ev_HeaderAdd ''content-type'' ''text/html'', Ev_HeaderAdd ''Set-Cookie'' ''a=1'',
                  Ev_HeaderAdd ''Set-Cookie'' ''b=2'']\<rparr>,
      body = ''<html><body>oops</body></html>'', statusCode = 500\<rparr>" by code_simp
  have html: "isHTMLResponse ''<html><body>oops</body></html>''
      [(''Server'', [''breezy'']), (''Content-Type'', [''text/html'']),
       (''Set-Cookie'', [''a=1'', ''b=2''])]" by code_simp
  from catchAll_html_headers_twice [of ?r ?w errorPageHandler "''<s>''"] dev ck html
  show ?thesis by (simp add: c rw_Header_def twice_def)
qed




section \<open>The notification endpoint (claim C8)\<close>

lemma readLoop_no_send: "filter is_WriteJSON (fst (readLoop fuel rd i)) = []"
proof (induction fuel arbitrary: i)
  case 0
  show ?case by simp
next
  case (Suc fuel)
  show ?case
  proof (cases "rd i")
    case (Message ty p)
    obtain cs fin where "readLoop fuel rd (Suc i) = (cs, fin)"
      by (cases "readLoop fuel rd (Suc i)")
    with Suc.IH [of "Suc i"] Message show ?thesis by simp
  next
    case (ReadFailed e)
    then show ?thesis by simp
  qed
qed

lemma readLoop_until_failure:
  assumes "\<forall>j<n. \<exists>ty p. rd (i + j) = Message ty p" and "\<exists>e. rd (i + n) = ReadFailed e"
    and "n < fuel"
  shows "readLoop fuel rd i = (replicate (Suc n) ReadMessage, True)"
  using assms
proof (induction n arbitrary: fuel i)
  case 0
  then obtain k e where "fuel = Suc k" and "rd i = ReadFailed e"
    by (cases fuel) auto
  then show ?case by simp
next
  case (Suc n)
  from Suc.prems(3) obtain k where k: "fuel = Suc k" and nk: "n < k" by (cases fuel) auto
  from Suc.prems(1) have "0 < Suc n \<longrightarrow> (\<exists>ty p. rd (i + 0) = Message ty p)" by (rule spec)
  then have "\<exists>ty p. rd (i + 0) = Message ty p" by simp
  then obtain ty p where m: "rd i = Message ty p" by auto
  have a: "\<forall>j<n. \<exists>ty p. rd (Suc i + j) = Message ty p"
  proof (intro allI impI)
    fix j assume "j < n"
    then have "Suc j < Suc n" by simp
    with Suc.prems(1) have "\<exists>ty p. rd (i + Suc j) = Message ty p" by blast
    then show "\<exists>ty p. rd (Suc i + j) = Message ty p" by simp
  qed
  from Suc.prems(2) have b: "\<exists>e. rd (Suc i + n) = ReadFailed e" by simp
  from Suc.IH [OF a b nk] have "readLoop k rd (Suc i) = (replicate (Suc n) ReadMessage, True)" .
  with k m show ?case by simp
qed

lemma readLoop_still_reading:
  assumes "\<forall>j<fuel. \<exists>ty p. rd (i + j) = Message ty p"
  shows "readLoop fuel rd i = (replicate fuel ReadMessage, False)"
  using assms
proof (induction fuel arbitrary: i)
  case 0
  show ?case by simp
next
  case (Suc fuel)
  from Suc.prems have "0 < Suc fuel \<longrightarrow> (\<exists>ty p. rd (i + 0) = Message ty p)" by (rule spec)
  then have "\<exists>ty p. rd (i + 0) = Message ty p" by simp
  then obtain ty p where m: "rd i = Message ty p" by auto
  have "\<forall>j<fuel. \<exists>ty p. rd (Suc i + j) = Message ty p"
  proof (intro allI impI)
    fix j assume "j < fuel"
    then have "Suc j < Suc fuel" by simp
    with Suc.prems have "\<exists>ty p. rd (i + Suc j) = Message ty p" by blast
    then show "\<exists>ty p. rd (Suc i + j) = Message ty p" by simp
  qed
  from Suc.IH [OF this] m show ?case by simp
qed

text \<open>
  Claim C8, as the specification states it, has every connection whose upgrade succeeds
  read and discard inbound messages until a read fails. When the one send fails the
  handler logs, closes the connection and returns: the peer's first message is there to be
  read, and no read is made.
\<close>

theorem handleLiveReload_send_fails_no_read:
  "upgrade_err env_send_fails = None \<and>
   reads env_send_fails 0 = Message 1 ''ping'' \<and>
   handleLiveReload 1700000000 5 env_send_fails =
     \<lparr>conn_calls = [WriteJSON [(''type'', JString ''server-info''), (''startTime'', JInt 1700000000)],
                    Close],
      logged = [''Failed to send server info''], returned = True\<rparr> \<and>
   ReadMessage \<notin> set (conn_calls (handleLiveReload 1700000000 5 env_send_fails))"
proof -
  have a: "upgrade_err env_send_fails = None" by (simp add: env_send_fails_def)
  have b: "reads env_send_fails 0 = Message 1 ''ping''" by (simp add: env_send_fails_def)
  have c: "handleLiveReload 1700000000 5 env_send_fails =
     \<lparr>conn_calls = [WriteJSON [(''type'', JString ''server-info''), (''startTime'', JInt 1700000000)],
                    Close],
      logged = [''Failed to send server info''], returned = True\<rparr>"
    by (simp add: handleLiveReload_def env_send_fails_def)
  from a b c show ?thesis by simp
qed

text \<open>
  Claim C8, amended: on a connection whose upgrade succeeds, the handler's first call is
  the send of \<open>{"type": "server-info", "startTime": serverStartTime}\<close>, and that is the
  only message it ever sends, however long it runs. When the send succeeds, it reads and
  discards inbound messages until a read fails, then closes the connection and returns:
  with the first failure at read \<open>n\<close> it makes \<open>n + 1\<close> reads, and while no read has failed
  it is still reading and has closed nothing. When the send fails, it logs, closes the
  connection and returns without reading.
\<close>

theorem handleLiveReload_protocol:
  "upgrade_err env = None \<longrightarrow>
     filter is_WriteJSON (conn_calls (handleLiveReload t fuel env)) =
       [WriteJSON [(''type'', JString ''server-info''), (''startTime'', JInt t)]] \<and>
     hd (conn_calls (handleLiveReload t fuel env)) =
       WriteJSON [(''type'', JString ''server-info''), (''startTime'', JInt t)] \<and>
     (send_err env = None \<and> (\<forall>i<n. \<exists>ty p. reads env i = Message ty p) \<and>
      (\<exists>e. reads env n = ReadFailed e) \<and> n < fuel \<longrightarrow>
        handleLiveReload t fuel env =
          \<lparr>conn_calls = WriteJSON [(''type'', JString ''server-info''), (''startTime'', JInt t)] #
                          replicate (Suc n) ReadMessage @ [Close],
           logged = [], returned = True\<rparr>) \<and>
     (send_err env = None \<and> (\<forall>i<fuel. \<exists>ty p. reads env i = Message ty p) \<longrightarrow>
        handleLiveReload t fuel env =
          \<lparr>conn_calls = WriteJSON [(''type'', JString ''server-info''), (''startTime'', JInt t)] #
                          replicate fuel ReadMessage,
           logged = [], returned = False\<rparr>) \<and>
     (send_err env \<noteq> None \<longrightarrow>
        handleLiveReload t fuel env =
          \<lparr>conn_calls = [WriteJSON [(''type'', JString ''server-info''), (''startTime'', JInt t)],
                         Close],
           logged = [''Failed to send server info''], returned = True\<rparr>)"
proof (intro impI conjI)
  assume up: "upgrade_err env = None"
  let ?msg = "WriteJSON [(''type'', JString ''server-info''), (''startTime'', JInt t)]"
  show "filter is_WriteJSON (conn_calls (handleLiveReload t fuel env)) = [?msg]"
  proof (cases "send_err env")
    case None
    obtain cs fin where rl: "readLoop fuel (reads env) 0 = (cs, fin)" by (cases "readLoop fuel (reads env) 0")
    with readLoop_no_send [of fuel "reads env" 0] have "filter is_WriteJSON cs = []" by simp
    with up None rl show ?thesis by (simp add: handleLiveReload_def)
  next
    case (Some e)
    with up show ?thesis by (simp add: handleLiveReload_def)
  qed
  show "hd (conn_calls (handleLiveReload t fuel env)) = ?msg"
    using up by (simp add: handleLiveReload_def Let_def split: option.splits prod.splits)
next
  assume up: "upgrade_err env = None"
  assume a: "send_err env = None \<and> (\<forall>i<n. \<exists>ty p. reads env i = Message ty p) \<and>
      (\<exists>e. reads env n = ReadFailed e) \<and> n < fuel"
  then have "readLoop fuel (reads env) 0 = (replicate (Suc n) ReadMessage, True)"
    using readLoop_until_failure [of n "reads env" 0 fuel] by simp
  with up a show "handleLiveReload t fuel env =
          \<lparr>conn_calls = WriteJSON [(''type'', JString ''server-info''), (''startTime'', JInt t)] #
                          replicate (Suc n) ReadMessage @ [Close],
           logged = [], returned = True\<rparr>"
    by (simp add: handleLiveReload_def)
next
  assume up: "upgrade_err env = None"
  assume a: "send_err env = None \<and> (\<forall>i<fuel. \<exists>ty p. reads env i = Message ty p)"
  then have "readLoop fuel (reads env) 0 = (replicate fuel ReadMessage, False)"
    using readLoop_still_reading [of fuel "reads env" 0] by simp
  with up a show "handleLiveReload t fuel env =
          \<lparr>conn_calls = WriteJSON [(''type'', JString ''server-info''), (''startTime'', JInt t)] #
                          replicate fuel ReadMessage,
           logged = [], returned = False\<rparr>"
    by (simp add: handleLiveReload_def)
next
  assume up: "upgrade_err env = None" and "send_err env \<noteq> None"
  then obtain e where "send_err env = Some e" by blast
  with up show "handleLiveReload t fuel env =
          \<lparr>conn_calls = [WriteJSON [(''type'', JString ''server-info''), (''startTime'', JInt t)],
                         Close],
           logged = [''Failed to send server info''], returned = True\<rparr>"
    by (simp add: handleLiveReload_def)
qed

text \<open>
  The statement at a peer that sends two messages and leaves: three reads, then the close;
  with fuel for two reads only, the handler is still in its loop. The router hands the
  notification route to this handler whatever the host is.
\<close>

theorem handleLiveReload_protocol_witness:
  "handleLiveReload 1700000000 3 env_client_leaves =
     \<lparr>conn_calls = [WriteJSON [(''type'', JString ''server-info''), (''startTime'', JInt 1700000000)],
                    ReadMessage, ReadMessage, ReadMessage, Close],
      logged = [], returned = True\<rparr> \<and>
   handleLiveReload 1700000000 2 env_client_leaves =
     \<lparr>conn_calls = [WriteJSON [(''type'', JString ''server-info''), (''startTime'', JInt 1700000000)],
                    ReadMessage, ReadMessage],
      logged = [], returned = False\<rparr> \<and>
   Middleware ''<s>'' 1700000000 htmlHandler 3 env_client_leaves \<lparr>header = [], calls = []\<rparr>
       \<lparr>Host = ''localhost:8080'', URL_Path = ''/ws/livereload''\<rparr> =
     LiveReload
       \<lparr>conn_calls = [WriteJSON [(''type'', JString ''server-info''), (''startTime'', JInt 1700000000)],
                    ReadMessage, ReadMessage, ReadMessage, Close],
        logged = [], returned = True\<rparr>"
proof -
  have up: "upgrade_err env_client_leaves = None" and se: "send_err env_client_leaves = None"
    by (simp_all add: env_client_leaves_def)
  have ok: "\<forall>i<2. \<exists>ty p. reads env_client_leaves i = Message ty p"
    by (simp add: env_client_leaves_def)
  have bad: "\<exists>e. reads env_client_leaves 2 = ReadFailed e" by (simp add: env_client_leaves_def)
  have r3: "replicate (Suc 2) ReadMessage = [ReadMessage, ReadMessage, ReadMessage]"
    and r2: "replicate 2 ReadMessage = [ReadMessage, ReadMessage]"
    by (simp_all add: numeral_2_eq_2)
  have lt: "(2::nat) < 3" by simp
  from handleLiveReload_protocol [of env_client_leaves 1700000000 3 2] up se ok bad lt
  have "handleLiveReload 1700000000 3 env_client_leaves =
     \<lparr>conn_calls = WriteJSON [(''type'', JString ''server-info''), (''startTime'', JInt 1700000000)] #
                    replicate (Suc 2) ReadMessage @ [Close],
      logged = [], returned = True\<rparr>"
    by blast
  then have a: "handleLiveReload 1700000000 3 env_client_leaves =
     \<lparr>conn_calls = [WriteJSON [(''type'', JString ''server-info''), (''startTime'', JInt 1700000000)],
                    ReadMessage, ReadMessage, ReadMessage, Close],
      logged = [], returned = True\<rparr>"
    by (simp only: r3 append.simps)
  from handleLiveReload_protocol [of env_client_leaves 1700000000 2 0] up se ok
  have "handleLiveReload 1700000000 2 env_client_leaves =
     \<lparr>conn_calls = WriteJSON [(''type'', JString ''server-info''), (''startTime'', JInt 1700000000)] #
                    replicate 2 ReadMessage,
      logged = [], returned = False\<rparr>"
    by blast
  then have b: "handleLiveReload 1700000000 2 env_client_leaves =
     \<lparr>conn_calls = [WriteJSON [(''type'', JString ''server-info''), (''startTime'', JInt 1700000000)],
                    ReadMessage, ReadMessage],
      logged = [], returned = False\<rparr>"
    by (simp only: r2)
  have cl: "cleanPath ''/ws/livereload'' = ''/ws/livereload''" by code_simp
  from a b cl show ?thesis by (simp add: Middleware_def)
qed

end
